theory Spec2Isabelle
  imports Main "HOL-Library.Sublist" "HOL-Library.Word"
begin

section \<open>JavaScript values and the runtime operations the server relies on\<close>

text \<open>
  The values that reach \<open>server.js\<close> come from \<open>JSON.parse\<close>, from the JSON body parser
  and from the multipart parser: \<open>undefined\<close>, \<open>null\<close>, booleans, numbers, strings, arrays
  and plain objects. An object is the list of its own properties in the order
  \<open>Object.values\<close> enumerates them (keys are distinct in a real object; a lookup takes the
  first entry).

  A number is given by the two things the server can observe of it: its truth value
  (false for \<open>0\<close>, \<open>-0\<close> and \<open>NaN\<close>, true for every other number) and its string form, as
  the conversion of the language gives it (\<open>5\<close>, \<open>2.5\<close>, \<open>-305\<close>, \<open>1e+21\<close>, \<open>NaN\<close>). The
  server does no arithmetic and compares a number only with \<open>null\<close>, \<open>undefined\<close> and
  strings, which it never equals. Every number of the language, integer or fraction, is
  some \<open>JSNumber b s\<close>; the type also holds pairs that belong to no number, so what is
  proved of every \<open>JNum n\<close> holds of every number.
\<close>

datatype js_number = JSNumber (number_truthy: bool) (number_string: string)

datatype jsval =
    JUndefined
  | JNull
  | JBool bool
  | JNum js_number
  | JStr string
  | JArr "jsval list"
  | JObj "(string \<times> jsval) list"

text \<open>What a \<open>throw\<close> or a rejected promise carries.\<close>

datatype js_error = TypeError | SyntaxError | TransportError string

definition bindE :: "'e + 'a \<Rightarrow> ('a \<Rightarrow> 'e + 'b) \<Rightarrow> 'e + 'b" where
  "bindE m f = (case m of Inl e \<Rightarrow> Inl e | Inr a \<Rightarrow> f a)"

text \<open>Evaluating a list of computations from left to right stops at the first throw.\<close>

fun sequenceE :: "('e + 'a) list \<Rightarrow> 'e + 'a list" where
  "sequenceE [] = Inr []"
| "sequenceE (m # ms) =
     (case m of
        Inl e \<Rightarrow> Inl e
      | Inr a \<Rightarrow> (case sequenceE ms of Inl e \<Rightarrow> Inl e | Inr as \<Rightarrow> Inr (a # as)))"

text \<open>The condition of an \<open>if\<close>, of \<open>||\<close> and of \<open>? :\<close> (ToBoolean).\<close>

fun truthy :: "jsval \<Rightarrow> bool" where
  "truthy JUndefined = False"
| "truthy JNull = False"
| "truthy (JBool b) = b"
| "truthy (JNum n) = number_truthy n"
| "truthy (JStr s) = (s \<noteq> '''')"
| "truthy (JArr xs) = True"
| "truthy (JObj kvs) = True"

fun typeof :: "jsval \<Rightarrow> string" where
  "typeof JUndefined = ''undefined''"
| "typeof JNull = ''object''"
| "typeof (JBool b) = ''boolean''"
| "typeof (JNum n) = ''number''"
| "typeof (JStr s) = ''string''"
| "typeof (JArr xs) = ''object''"
| "typeof (JObj kvs) = ''object''"

text \<open>\<open>a || b\<close> on values.\<close>

definition js_or :: "jsval \<Rightarrow> jsval \<Rightarrow> jsval" where
  "js_or a b = (if truthy a then a else b)"

text \<open>
  \<open>o.k\<close> for an object given by its own properties; no property name the server reads is
  inherited from \<open>Object.prototype\<close>.
\<close>

definition own_property :: "(string \<times> jsval) list \<Rightarrow> string \<Rightarrow> jsval" where
  "own_property kvs k = (case map_of kvs k of None \<Rightarrow> JUndefined | Some v \<Rightarrow> v)"

text \<open>
  \<open>v.k\<close> for any value: reading a property of \<open>undefined\<close> or \<open>null\<close> throws a TypeError;
  arrays, strings, numbers and booleans have none of the properties the server reads
  (\<open>name\<close>, \<open>email\<close>, \<open>bestDays\<close>, \<open>other\<close>, ...), so the read gives \<open>undefined\<close>.
\<close>

fun js_member :: "jsval \<Rightarrow> string \<Rightarrow> js_error + jsval" where
  "js_member JUndefined k = Inl TypeError"
| "js_member JNull k = Inl TypeError"
| "js_member (JObj kvs) k = Inr (own_property kvs k)"
| "js_member v k = Inr JUndefined"

definition Object_values :: "(string \<times> jsval) list \<Rightarrow> jsval list" where
  "Object_values kvs = map snd kvs"

fun join_strings :: "string \<Rightarrow> string list \<Rightarrow> string" where
  "join_strings sep [] = ''''"
| "join_strings sep [s] = s"
| "join_strings sep (s # t # ts) = s @ sep @ join_strings sep (t # ts)"

text \<open>
  ToString, as a template literal \<open>${v}\<close>, \<open>String(v)\<close>, string concatenation and
  \<open>Array.prototype.join\<close> apply it. An array is its elements joined with a comma, where
  \<open>undefined\<close> and \<open>null\<close> elements give the empty string. A plain object gives
  \<open>[object Object]\<close> through \<open>Object.prototype.toString\<close>; an object parsed from JSON
  with a key \<open>toString\<close> of its own shadows that method with a value that is not
  callable, and the conversion throws a TypeError.
\<close>

fun ToString :: "jsval \<Rightarrow> js_error + string" where
  "ToString JUndefined = Inr ''undefined''"
| "ToString JNull = Inr ''null''"
| "ToString (JBool b) = Inr (if b then ''true'' else ''false'')"
| "ToString (JNum n) = Inr (number_string n)"
| "ToString (JStr s) = Inr s"
| "ToString (JArr xs) =
     bindE (sequenceE (map (\<lambda>x. if x = JUndefined \<or> x = JNull then Inr '''' else ToString x) xs))
       (\<lambda>ss. Inr (join_strings '','' ss))"
| "ToString (JObj kvs) =
     (if map_of kvs ''toString'' = None then Inr ''[object Object]'' else Inl TypeError)"

text \<open>\<open>xs.join(sep)\<close>.\<close>

definition join_element :: "jsval \<Rightarrow> js_error + string" where
  "join_element x = (if x = JUndefined \<or> x = JNull then Inr '''' else ToString x)"

definition Array_join :: "jsval list \<Rightarrow> string \<Rightarrow> js_error + string" where
  "Array_join xs sep = bindE (sequenceE (map join_element xs)) (\<lambda>ss. Inr (join_strings sep ss))"

section \<open>The value formatter\<close>

text \<open>
  \<open>formatValue\<close> of \<open>server.js\<close>, one equation per kind of value, in the order of the
  source's tests: the \<open>N/A\<close> test (\<open>null\<close>, \<open>undefined\<close>, \<open>''\<close>), strings and numbers returned
  as they are, arrays, objects, and \<open>String(data)\<close> for what is left (the booleans). The
  result is a value, not always a string: a number is returned as a number, and a truthy
  \<open>label\<close>, \<open>value\<close>, \<open>name\<close>, \<open>id\<close> or \<open>other\<close> is returned whatever it is.
\<close>

fun formatValue :: "jsval \<Rightarrow> js_error + jsval" where
  "formatValue JNull = Inr (JStr ''N/A'')"
| "formatValue JUndefined = Inr (JStr ''N/A'')"
| "formatValue (JStr s) = (if s = '''' then Inr (JStr ''N/A'') else Inr (JStr s))"
| "formatValue (JNum n) = Inr (JNum n)"
| "formatValue (JArr xs) =
     (if length xs = 0 then Inr (JStr ''N/A'')
      else bindE (sequenceE (map formatValue xs))
             (\<lambda>ys. bindE (Array_join ys '', '') (\<lambda>s. Inr (JStr s))))"
| "formatValue (JObj kvs) =
     (if truthy (own_property kvs ''label'') then Inr (own_property kvs ''label'')
      else if truthy (own_property kvs ''value'') then Inr (own_property kvs ''value'')
      else if truthy (own_property kvs ''name'') then Inr (own_property kvs ''name'')
      else if truthy (own_property kvs ''id'') \<and> own_property kvs ''id'' \<noteq> JStr ''other''
        then Inr (own_property kvs ''id'')
      else if truthy (own_property kvs ''other'') then Inr (own_property kvs ''other'')
      else (case Object_values kvs of
              [] \<Rightarrow> Inr (JStr ''Provided'')
            | v # vs \<Rightarrow> if typeof v = ''string'' then Inr v else Inr (JStr ''Provided'')))"
| "formatValue (JBool b) = bindE (ToString (JBool b)) (\<lambda>s. Inr (JStr s))"

section \<open>Template literals\<close>

text \<open>
  A template literal is its pieces in order: literal text, and \<open>${e}\<close> holes that
  evaluate \<open>e\<close> and convert the value with ToString. Evaluation runs left to right and
  stops at the first throw. In the definitions below every line of a literal in
  \<open>server.js\<close> is one \<open>Lit\<close>, with its leading blanks and its line break.
\<close>

datatype piece = Lit string | Val "js_error + jsval"

fun piece_string :: "piece \<Rightarrow> js_error + string" where
  "piece_string (Lit s) = Inr s"
| "piece_string (Val c) = bindE c ToString"

definition template :: "piece list \<Rightarrow> js_error + string" where
  "template ps = bindE (sequenceE (map piece_string ps)) (\<lambda>ss. Inr (concat ss))"

section \<open>What the server takes from its environment\<close>

text \<open>
  \<open>process.env\<close> (a variable is a string or missing), \<open>JSON.parse\<close> on a string, the mail
  transport and the clock. \<open>sendMail rt calls m\<close> is what \<open>transporter.sendMail(m)\<close> does
  after the earlier calls \<open>calls\<close>: \<open>None\<close> when it resolves, \<open>Some e\<close> when it rejects
  with \<open>e\<close>.
\<close>

record attachment =
  filename :: string
  content :: "8 word list"

record uploaded_file =
  originalname :: string
  buffer :: "8 word list"

record mail =
  mail_from :: string
  mail_to :: jsval
  mail_subject :: string
  mail_html :: string
  mail_attachments :: "attachment list"

record runtime =
  EMAIL_USER :: "string option"
  ADMIN_EMAIL :: "string option"
  parse_json :: "string \<Rightarrow> js_error + jsval"
  sendMail :: "mail list \<Rightarrow> mail \<Rightarrow> js_error option"
  getFullYear :: js_number

definition env_value :: "string option \<Rightarrow> jsval" where
  "env_value v = (case v of None \<Rightarrow> JUndefined | Some s \<Rightarrow> JStr s)"

text \<open>\<open>JSON.parse(v)\<close>: the argument is converted to a string first.\<close>

definition JSON_parse :: "runtime \<Rightarrow> jsval \<Rightarrow> js_error + jsval" where
  "JSON_parse rt v = bindE (ToString v) (parse_json rt)"

definition Array_isArray :: "jsval \<Rightarrow> bool" where
  "Array_isArray v = (case v of JArr xs \<Rightarrow> True | _ \<Rightarrow> False)"

text \<open>
  What a handler leaves behind: the calls of \<open>transporter.sendMail\<close> in order, and the
  console lines (\<open>console.log\<close> of a text, \<open>console.error\<close> of a label and an error).
\<close>

datatype console_line = ConsoleLog string | ConsoleError string js_error

record world =
  transport_calls :: "mail list"
  console :: "console_line list"

text \<open>
  The request as a handler reads it: \<open>req.body\<close> and \<open>req.files\<close> (\<open>None\<close> when the
  multipart parser set none).
\<close>

record request =
  body :: jsval
  files :: "uploaded_file list option"

datatype response = Response (status: nat) (success: bool)

text \<open>
  A handler ends with the response it sent, or, when an error escapes its \<open>try\<close>, with
  the rejected promise of the \<open>async\<close> function, which nothing handles.
\<close>

datatype outcome = Responded response | Unhandled js_error

text \<open>An \<open>async\<close> computation: it changes the world and returns or throws.\<close>

type_synonym 'a io = "world \<Rightarrow> (js_error + 'a) \<times> world"

definition bindIO :: "'a io \<Rightarrow> ('a \<Rightarrow> 'b io) \<Rightarrow> 'b io" where
  "bindIO m f w = (case m w of (Inl e, w') \<Rightarrow> (Inl e, w') | (Inr a, w') \<Rightarrow> f a w')"

definition liftE :: "js_error + 'a \<Rightarrow> 'a io" where
  "liftE r w = (r, w)"

section \<open>The email template and the dispatcher\<close>

text \<open>\<open>generateEmailTemplate\<close>; the source does not use its \<open>title\<close>.\<close>

definition generateEmailTemplate :: "runtime \<Rightarrow> string \<Rightarrow> string \<Rightarrow> string" where
  \<open>generateEmailTemplate rt title content_html = concat [
      ''\<newline>'',
      ''    <!DOCTYPE html>\<newline>'',
      ''    <html>\<newline>'',
      ''    <head>\<newline>'',
      ''      <meta charset="utf-8">\<newline>'',
      ''      <style>\<newline>'',
      ''        body { font-family: 'Helvetica Neue', Helvetica, Arial, sans-serif; line-height: 1.6; color: #333; margin: 0; padding: 0; background-color: #f4f4f4; }\<newline>'',
      ''        .container { max-width: 600px; margin: 20px auto; background: #ffffff; border-radius: 8px; overflow: hidden; box-shadow: 0 2px 8px rgba(0,0,0,0.1); }\<newline>'',
      ''        .header { background-color: #0D6B7D; padding: 30px; text-align: center; }\<newline>'',
      ''        .header h1 { color: #ffffff; margin: 0; font-size: 26px; font-weight: 700; letter-spacing: 1px; }\<newline>'',
      ''        .header p { color: #e0f7fa; margin: 5px 0 0; font-size: 14px; }\<newline>'',
      ''        .content { padding: 40px 30px; }\<newline>'',
      ''        .footer { background-color: #f8f9fa; padding: 20px; text-align: center; font-size: 12px; color: #888; border-top: 1px solid #eee; }\<newline>'',
      ''        .section-title { font-size: 16px; font-weight: 700; color: #0D6B7D; text-transform: uppercase; margin: 25px 0 15px 0; border-bottom: 2px solid #e0f2f1; padding-bottom: 8px; }\<newline>'',
      ''        .info-table { width: 100%; border-collapse: collapse; margin-bottom: 20px; }\<newline>'',
      ''        .info-table td { padding: 10px 0; border-bottom: 1px solid #f0f0f0; font-size: 14px; }\<newline>'',
      ''        .info-table td:first-child { width: 40%; font-weight: 600; color: #555; }\<newline>'',
      ''        .info-table td:last-child { color: #333; }\<newline>'',
      ''        .highlight { background-color: #e0f7fa; border-radius: 6px; padding: 15px; border-left: 4px solid #0D6B7D; margin: 20px 0; }\<newline>'',
      ''        .description-box { background-color: #f9f9f9; padding: 15px; border-radius: 6px; border: 1px solid #eee; font-style: italic; color: #555; }\<newline>'',
      ''      </style>\<newline>'',
      ''    </head>\<newline>'',
      ''    <body>\<newline>'',
      ''      <div class="container">\<newline>'',
      ''        <div class="header">\<newline>'',
      ''          <h1>LOKSAR</h1>\<newline>'',
      ''          <p>Professional Home & Gardening Services</p>\<newline>'',
      ''        </div>\<newline>'',
      ''        <div class="content">\<newline>'',
      ''          '', content_html, ''\<newline>'',
      ''        </div>\<newline>'',
      ''        <div class="footer">\<newline>'',
      ''          <p>&copy; '', number_string (getFullYear rt), '' Loksar Services. All rights reserved.</p>\<newline>'',
      ''          <p>Leicester, United Kingdom | support@loksar.com</p>\<newline>'',
      ''        </div>\<newline>'',
      ''      </div>\<newline>'',
      ''    </body>\<newline>'',
      ''    </html>\<newline>'',
      ''  ''
     ]\<close>

text \<open>
  \<open>sendEmail\<close>: the object passed to \<open>transporter.sendMail\<close> is \<open>mail_options\<close>; one call
  of the transport inside \<open>try\<close>; when it resolves, the log line
  (whose template converts \<open>to\<close> to a string); in \<open>catch\<close>, \<open>console.error\<close> and the same
  error thrown again. \<open>attachments\<close> is \<open>None\<close> when the caller passes no fourth argument,
  and the default \<open>[]\<close> applies.
\<close>

definition mail_options ::
  "runtime \<Rightarrow> jsval \<Rightarrow> string \<Rightarrow> string \<Rightarrow> attachment list option \<Rightarrow> mail" where
  \<open>mail_options rt to subject htmlContent attachments =
     \<lparr>mail_from = ''"Loksar Services" <'' @ (case EMAIL_USER rt of None \<Rightarrow> ''undefined'' | Some u \<Rightarrow> u) @ ''>'',
      mail_to = to,
      mail_subject = subject,
      mail_html = htmlContent,
      mail_attachments = (case attachments of None \<Rightarrow> [] | Some a \<Rightarrow> a)\<rparr>\<close>

definition sendEmail ::
  "runtime \<Rightarrow> jsval \<Rightarrow> string \<Rightarrow> string \<Rightarrow> attachment list option \<Rightarrow> unit io" where
  "sendEmail rt to subject htmlContent attachments w =
     (let m = mail_options rt to subject htmlContent attachments;
          w1 = w\<lparr>transport_calls := transport_calls w @ [m]\<rparr>
      in case sendMail rt (transport_calls w) m of
           Some error \<Rightarrow>
             (Inl error, w1\<lparr>console := console w1 @ [ConsoleError ''Error sending email:'' error]\<rparr>)
         | None \<Rightarrow>
             (case ToString to of
                Inl error \<Rightarrow>
                  (Inl error, w1\<lparr>console := console w1 @ [ConsoleError ''Error sending email:'' error]\<rparr>)
              | Inr t \<Rightarrow> (Inr (), w1\<lparr>console := console w1 @ [ConsoleLog (''Email sent to '' @ t)]\<rparr>)))"

section \<open>The contact handler\<close>

definition contact_adminContent :: "jsval \<Rightarrow> jsval \<Rightarrow> jsval \<Rightarrow> jsval \<Rightarrow> jsval \<Rightarrow> js_error + string" where
  \<open>contact_adminContent name email phone subject message = template [
      Lit ''\<newline>'',
      Lit ''    <h2 style="color: #333; margin-top:0;">New Inquiry</h2>\<newline>'',
      Lit ''    <div class="highlight">\<newline>'',
      Lit ''      <strong>Subject:</strong> '', Val (Inr subject), Lit ''\<newline>'',
      Lit ''    </div>\<newline>'',
      Lit ''    <div class="section-title">Contact Details</div>\<newline>'',
      Lit ''    <table class="info-table">\<newline>'',
      Lit ''      <tr><td>Name</td><td>'', Val (Inr name), Lit ''</td></tr>\<newline>'',
      Lit ''      <tr><td>Email</td><td><a href="mailto:'', Val (Inr email), Lit ''" style="color:#0D6B7D; text-decoration:none;">'', Val (Inr email), Lit ''</a></td></tr>\<newline>'',
      Lit ''      <tr><td>Phone</td><td>'', Val (Inr phone), Lit ''</td></tr>\<newline>'',
      Lit ''    </table>\<newline>'',
      Lit ''    <div class="section-title">Message</div>\<newline>'',
      Lit ''    <div class="description-box">'', Val (Inr message), Lit ''</div>\<newline>'',
      Lit ''  ''
     ]\<close>

definition contact_userContent :: "jsval \<Rightarrow> jsval \<Rightarrow> js_error + string" where
  \<open>contact_userContent name subject = template [
      Lit ''\<newline>'',
      Lit ''    <h2 style="color: #333; margin-top:0;">Hello '', Val (Inr name), Lit '',</h2>\<newline>'',
      Lit ''    <p>Thank you for contacting <strong>LOKSAR</strong>. We have successfully received your inquiry regarding <strong>"'', Val (Inr subject), Lit ''"</strong>.</p>\<newline>'',
      Lit ''    <div class="highlight">\<newline>'',
      Lit ''      Our team will review your message and get back to you within 24 hours.\<newline>'',
      Lit ''    </div>\<newline>'',
      Lit ''    <p>Best Regards,<br>The Loksar Team</p>\<newline>'',
      Lit ''  ''
     ]\<close>

text \<open>
  The destructuring of \<open>req.body\<close> and the two content literals (\<open>contact_contents\<close>)
  stand before the \<open>try\<close>: an error there escapes the handler. The two sends and the
  response (\<open>contact_try\<close>) are inside it; its \<open>catch\<close> answers 500 and logs nothing.
\<close>

definition contact_try :: "runtime \<Rightarrow> jsval \<Rightarrow> jsval \<Rightarrow> string \<Rightarrow> string \<Rightarrow> response io" where
  "contact_try rt email subject adminContent userContent =
     bindIO (liftE (template [Lit ''New Contact: '', Val (Inr subject)])) (\<lambda>admin_subject.
     bindIO (sendEmail rt (env_value (ADMIN_EMAIL rt)) admin_subject
               (generateEmailTemplate rt ''New Contact'' adminContent) None) (\<lambda>_.
     bindIO (sendEmail rt email ''We received your message - Loksar''
               (generateEmailTemplate rt ''Thank You'' userContent) None) (\<lambda>_.
     liftE (Inr (Response 200 True)))))"

definition contact_contents :: "request \<Rightarrow> js_error + (jsval \<times> jsval \<times> string \<times> string)" where
  "contact_contents req =
     bindE (js_member (body req) ''name'') (\<lambda>name.
     bindE (js_member (body req) ''email'') (\<lambda>email.
     bindE (js_member (body req) ''phone'') (\<lambda>phone.
     bindE (js_member (body req) ''subject'') (\<lambda>subject.
     bindE (js_member (body req) ''message'') (\<lambda>message.
     bindE (contact_adminContent name email phone subject message) (\<lambda>adminContent.
     bindE (contact_userContent name subject) (\<lambda>userContent.
     Inr (email, subject, adminContent, userContent))))))))"

definition contact :: "runtime \<Rightarrow> request \<Rightarrow> world \<Rightarrow> outcome \<times> world" where
  "contact rt req w =
     (case contact_contents req of
        Inl error \<Rightarrow> (Unhandled error, w)
      | Inr (email, subject, adminContent, userContent) \<Rightarrow>
          (case contact_try rt email subject adminContent userContent w of
             (Inl error, w') \<Rightarrow> (Responded (Response 500 False), w')
           | (Inr r, w') \<Rightarrow> (Responded r, w')))"

section \<open>The booking handlers\<close>

text \<open>\<open>req.files ? req.files.map(file => ({filename: file.originalname, content: file.buffer})) : []\<close>\<close>

definition emailAttachments :: "request \<Rightarrow> attachment list" where
  "emailAttachments req =
     (case files req of
        Some fs \<Rightarrow> map (\<lambda>file. \<lparr>filename = originalname file, content = buffer file\<rparr>) fs
      | None \<Rightarrow> [])"

text \<open>
  \<open>display += ` (${other})`\<close> and its variant with \<open>Other: \<close>: the template is evaluated,
  then the left operand is converted and the two strings are concatenated.
\<close>

definition append_suffix :: "jsval \<Rightarrow> string \<Rightarrow> jsval \<Rightarrow> js_error + jsval" where
  "append_suffix display opening other =
     bindE (template [Lit opening, Val (Inr other), Lit '')'']) (\<lambda>suffix.
     bindE (ToString display) (\<lambda>d. Inr (JStr (d @ suffix))))"

text \<open>The block \<open>Specific logic for Best Days which can be nested\<close>.\<close>

definition bestDaysDisplay :: "jsval \<Rightarrow> js_error + jsval" where
  "bestDaysDisplay bookingDetails =
     bindE (js_member bookingDetails ''bestDays'') (\<lambda>bestDays.
       if truthy bestDays then
         (if Array_isArray bestDays then formatValue bestDays
          else bindE (js_member bestDays ''bestDays'') (\<lambda>nested.
            if truthy nested then
              bindE (formatValue nested) (\<lambda>days.
              bindE (js_member bestDays ''other'') (\<lambda>other.
                if truthy other then append_suffix days '' (Other: '' other else Inr days))
            else Inr (JStr ''N/A'')))
       else Inr (JStr ''N/A''))"

text \<open>The block \<open>Specific logic for Current Cleaner\<close>.\<close>

definition currentCleanerDisplay :: "jsval \<Rightarrow> js_error + jsval" where
  "currentCleanerDisplay bookingDetails =
     bindE (js_member bookingDetails ''currentCleaner'') (\<lambda>currentCleaner.
       if truthy currentCleaner then
         bindE (if typeof currentCleaner = ''object'' then js_member currentCleaner ''currentCleaner''
                else Inr (JBool False)) (\<lambda>inner.
           if truthy inner then
             bindE (js_member currentCleaner ''other'') (\<lambda>other.
               if truthy other then append_suffix inner '' ('' other else Inr inner)
           else formatValue currentCleaner)
       else Inr (JStr ''N/A''))"

text \<open>The block \<open>Specific logic for Cleaning Type\<close>.\<close>

definition cleaningTypeDisplay :: "jsval \<Rightarrow> js_error + jsval" where
  "cleaningTypeDisplay bookingDetails =
     bindE (js_member bookingDetails ''cleaningType'') (\<lambda>cleaningType.
     bindE (formatValue cleaningType) (\<lambda>display.
     bindE (js_member bookingDetails ''cleaningTypeOther'') (\<lambda>other.
       if truthy other then append_suffix display '' ('' other else Inr display)))"

definition cleaning_bookingRows :: "jsval \<Rightarrow> jsval \<Rightarrow> jsval \<Rightarrow> jsval \<Rightarrow> js_error + string" where
  \<open>cleaning_bookingRows bookingDetails cleaningType currentCleaner bestDays = template [
      Lit ''\<newline>'',
      Lit ''      <tr><td>Property Type</td><td>'', Val (bindE (js_member bookingDetails ''propertyType'') formatValue), Lit ''</td></tr>\<newline>'',
      Lit ''      <tr><td>Frequency</td><td>'', Val (bindE (js_member bookingDetails ''frequency'') formatValue), Lit ''</td></tr>\<newline>'',
      Lit ''      <tr><td>Bedrooms</td><td>'', Val (bindE (js_member bookingDetails ''bedrooms'') formatValue), Lit ''</td></tr>\<newline>'',
      Lit ''      <tr><td>Bathrooms</td><td>'', Val (bindE (js_member bookingDetails ''receptionRooms'') formatValue), Lit ''</td></tr>\<newline>'',
      Lit ''      <tr><td>Service Type</td><td>'', Val (Inr cleaningType), Lit ''</td></tr>\<newline>'',
      Lit ''      <tr><td>Current Cleaner</td><td>'', Val (Inr currentCleaner), Lit ''</td></tr>\<newline>'',
      Lit ''      <tr><td>Preferred Days</td><td>'', Val (Inr bestDays), Lit ''</td></tr>\<newline>'',
      Lit ''      <tr><td>Supplies</td><td>'', Val (bindE (js_member bookingDetails ''supplyMaterials'') formatValue), Lit ''</td></tr>\<newline>'',
      Lit ''      <tr><td>Hiring Decision</td><td>'', Val (bindE (js_member bookingDetails ''hiringDecision'') formatValue), Lit ''</td></tr>\<newline>'',
      Lit ''      <tr><td>Location</td><td>'', Val (bindE (js_member bookingDetails ''location'') formatValue), Lit ''</td></tr>\<newline>'',
      Lit ''    ''
     ]\<close>

definition cleaning_adminContent :: "jsval \<Rightarrow> string \<Rightarrow> jsval \<Rightarrow> js_error + string" where
  \<open>cleaning_adminContent userDetails bookingRows description = template [
      Lit ''\<newline>'',
      Lit ''      <h2 style="color: #d32f2f; margin-top:0;">New Cleaning Job Request</h2>\<newline>'',
      Lit ''      <div class="section-title">Customer Details</div>\<newline>'',
      Lit ''      <table class="info-table">\<newline>'',
      Lit ''        <tr><td>Name</td><td>'', Val (js_member userDetails ''name''), Lit ''</td></tr>\<newline>'',
      Lit ''        <tr><td>Email</td><td>'', Val (js_member userDetails ''email''), Lit ''</td></tr>\<newline>'',
      Lit ''        <tr><td>Phone</td><td>'', Val (js_member userDetails ''phone''), Lit ''</td></tr>\<newline>'',
      Lit ''      </table>\<newline>'',
      Lit ''      <div class="section-title">Job Specification</div>\<newline>'',
      Lit ''      <table class="info-table">'', Val (Inr (JStr bookingRows)), Lit ''</table>\<newline>'',
      Lit ''      <div class="section-title">Customer Notes</div>\<newline>'',
      Lit ''      <div class="description-box">'', Val (Inr (js_or description (JStr ''No additional notes provided.''))), Lit ''</div>\<newline>'',
      Lit ''    ''
     ]\<close>

definition cleaning_userContent :: "jsval \<Rightarrow> string \<Rightarrow> js_error + string" where
  \<open>cleaning_userContent userDetails bookingRows = template [
      Lit ''\<newline>'',
      Lit ''      <h2 style="color: #333; margin-top:0;">Booking Confirmation</h2>\<newline>'',
      Lit ''      <p>Dear '', Val (js_member userDetails ''name''), Lit '',</p>\<newline>'',
      Lit ''      <p>Thank you for choosing <strong>LOKSAR</strong>. We have received your request for a cleaning service.</p>\<newline>'',
      Lit ''      <div class="highlight">\<newline>'',
      Lit ''        We will review your property details and provide you with a competitive quote shortly.\<newline>'',
      Lit ''      </div>\<newline>'',
      Lit ''      <div class="section-title">Your Request Summary</div>\<newline>'',
      Lit ''      <table class="info-table">'', Val (Inr (JStr bookingRows)), Lit ''</table>\<newline>'',
      Lit ''      <p>Best Regards,<br>The Loksar Team</p>\<newline>'',
      Lit ''    ''
     ]\<close>

text \<open>
  The \<open>try\<close> block of the cleaning handler up to the two content literals: it reads the
  request and builds the contents, with no effect on the world.
\<close>

definition cleaning_contents :: "runtime \<Rightarrow> request \<Rightarrow> js_error + (jsval \<times> attachment list \<times> string \<times> string)" where
  "cleaning_contents rt req =
     bindE (js_member (body req) ''userDetails'') (\<lambda>userDetails_text.
     bindE (JSON_parse rt userDetails_text) (\<lambda>userDetails.
     bindE (js_member (body req) ''bookingDetails'') (\<lambda>bookingDetails_text.
     bindE (JSON_parse rt bookingDetails_text) (\<lambda>bookingDetails.
     bindE (js_member (body req) ''description'') (\<lambda>description_field.
     bindE (Inr (js_or description_field (JStr ''''))) (\<lambda>description.
     bindE (bestDaysDisplay bookingDetails) (\<lambda>bestDays.
     bindE (currentCleanerDisplay bookingDetails) (\<lambda>currentCleaner.
     bindE (cleaningTypeDisplay bookingDetails) (\<lambda>cleaningType.
     bindE (cleaning_bookingRows bookingDetails cleaningType currentCleaner bestDays) (\<lambda>bookingRows.
     bindE (cleaning_adminContent userDetails bookingRows description) (\<lambda>adminContent.
     bindE (cleaning_userContent userDetails bookingRows) (\<lambda>userContent.
     Inr (userDetails, emailAttachments req, adminContent, userContent)))))))))))))"

text \<open>
  The two sends and the response, shared in shape by both booking handlers: the admin
  copy with the attachments, then the customer copy to \<open>userDetails.email\<close> without a
  fourth argument, then the 200.
\<close>

definition booking_sends ::
  "runtime \<Rightarrow> string \<Rightarrow> string \<Rightarrow> jsval \<times> attachment list \<times> string \<times> string \<Rightarrow> response io" where
  "booking_sends rt admin_subject admin_title c =
     (case c of (userDetails, attachments, adminContent, userContent) \<Rightarrow>
        bindIO (sendEmail rt (env_value (ADMIN_EMAIL rt)) admin_subject
                  (generateEmailTemplate rt admin_title adminContent) (Some attachments)) (\<lambda>_.
        bindIO (liftE (js_member userDetails ''email'')) (\<lambda>email.
        bindIO (sendEmail rt email ''Booking Received - Loksar Services''
                  (generateEmailTemplate rt ''Booking Received'' userContent) None) (\<lambda>_.
        liftE (Inr (Response 200 True))))))"

text \<open>The \<open>catch\<close> of a booking handler: \<open>console.error(error)\<close> and the 500.\<close>

definition booking_catch :: "(js_error + response) \<times> world \<Rightarrow> outcome \<times> world" where
  "booking_catch r =
     (case r of
        (Inl error, w') \<Rightarrow>
          (Responded (Response 500 False), w'\<lparr>console := console w' @ [ConsoleError '''' error]\<rparr>)
      | (Inr res, w') \<Rightarrow> (Responded res, w'))"

definition book_cleaning :: "runtime \<Rightarrow> request \<Rightarrow> world \<Rightarrow> outcome \<times> world" where
  "book_cleaning rt req w =
     booking_catch
       (bindIO (liftE (cleaning_contents rt req))
          (booking_sends rt ''New Cleaning Job Alert'' ''New Cleaning Job'') w)"

definition gardening_bookingRows :: "jsval \<Rightarrow> js_error + string" where
  \<open>gardening_bookingRows bookingDetails = template [
      Lit ''\<newline>'',
      Lit ''      <tr><td>Property Type</td><td>'', Val (bindE (js_member bookingDetails ''propertyType'') formatValue), Lit ''</td></tr>\<newline>'',
      Lit ''      <tr><td>Services</td><td>'', Val (bindE (js_member bookingDetails ''services'') formatValue), Lit ''</td></tr>\<newline>'',
      Lit ''      <tr><td>Frequency</td><td>'', Val (bindE (js_member bookingDetails ''frequency'') formatValue), Lit ''</td></tr>\<newline>'',
      Lit ''      <tr><td>Garden Size</td><td>'', Val (bindE (js_member bookingDetails ''gardenSize'') formatValue), Lit ''</td></tr>\<newline>'',
      Lit ''      <tr><td>Condition</td><td>'', Val (bindE (js_member bookingDetails ''gardenCondition'') formatValue), Lit ''</td></tr>\<newline>'',
      Lit ''      <tr><td>Plants</td><td>'', Val (bindE (js_member bookingDetails ''plants'') formatValue), Lit ''</td></tr>\<newline>'',
      Lit ''      <tr><td>Waste Removal</td><td>'', Val (bindE (js_member bookingDetails ''gardenWaste'') formatValue), Lit ''</td></tr>\<newline>'',
      Lit ''      <tr><td>Start Time</td><td>'', Val (bindE (js_member bookingDetails ''workBegin'') formatValue), Lit ''</td></tr>\<newline>'',
      Lit ''      <tr><td>Hiring Decision</td><td>'', Val (bindE (js_member bookingDetails ''hiringDecision'') formatValue), Lit ''</td></tr>\<newline>'',
      Lit ''      <tr><td>Location</td><td>'', Val (bindE (js_member bookingDetails ''location'') formatValue), Lit ''</td></tr>\<newline>'',
      Lit ''    ''
     ]\<close>

definition gardening_adminContent :: "jsval \<Rightarrow> string \<Rightarrow> jsval \<Rightarrow> js_error + string" where
  \<open>gardening_adminContent userDetails bookingRows description = template [
      Lit ''\<newline>'',
      Lit ''      <h2 style="color: #2e7d32; margin-top:0;">New Gardening Job Request</h2>\<newline>'',
      Lit ''      <div class="section-title">Customer Details</div>\<newline>'',
      Lit ''      <table class="info-table">\<newline>'',
      Lit ''        <tr><td>Name</td><td>'', Val (js_member userDetails ''name''), Lit ''</td></tr>\<newline>'',
      Lit ''        <tr><td>Email</td><td>'', Val (js_member userDetails ''email''), Lit ''</td></tr>\<newline>'',
      Lit ''        <tr><td>Phone</td><td>'', Val (js_member userDetails ''phone''), Lit ''</td></tr>\<newline>'',
      Lit ''      </table>\<newline>'',
      Lit ''      <div class="section-title">Job Specification</div>\<newline>'',
      Lit ''      <table class="info-table">'', Val (Inr (JStr bookingRows)), Lit ''</table>\<newline>'',
      Lit ''      <div class="section-title">Customer Notes</div>\<newline>'',
      Lit ''      <div class="description-box">'', Val (Inr (js_or description (JStr ''No additional notes provided.''))), Lit ''</div>\<newline>'',
      Lit ''    ''
     ]\<close>

definition gardening_userContent :: "jsval \<Rightarrow> string \<Rightarrow> js_error + string" where
  \<open>gardening_userContent userDetails bookingRows = template [
      Lit ''\<newline>'',
      Lit ''      <h2 style="color: #333; margin-top:0;">Booking Confirmation</h2>\<newline>'',
      Lit ''      <p>Dear '', Val (js_member userDetails ''name''), Lit '',</p>\<newline>'',
      Lit ''      <p>Thank you for choosing <strong>LOKSAR</strong>. We have received your gardening service request.</p>\<newline>'',
      Lit ''      <div class="highlight">\<newline>'',
      Lit ''        Our gardening experts will review your requirements and get back to you soon.\<newline>'',
      Lit ''      </div>\<newline>'',
      Lit ''      <div class="section-title">Your Request Summary</div>\<newline>'',
      Lit ''      <table class="info-table">'', Val (Inr (JStr bookingRows)), Lit ''</table>\<newline>'',
      Lit ''      <p>Best Regards,<br>The Loksar Team</p>\<newline>'',
      Lit ''    ''
     ]\<close>

definition gardening_contents :: "runtime \<Rightarrow> request \<Rightarrow> js_error + (jsval \<times> attachment list \<times> string \<times> string)" where
  "gardening_contents rt req =
     bindE (js_member (body req) ''userDetails'') (\<lambda>userDetails_text.
     bindE (JSON_parse rt userDetails_text) (\<lambda>userDetails.
     bindE (js_member (body req) ''bookingDetails'') (\<lambda>bookingDetails_text.
     bindE (JSON_parse rt bookingDetails_text) (\<lambda>bookingDetails.
     bindE (js_member (body req) ''description'') (\<lambda>description_field.
     bindE (Inr (js_or description_field (JStr ''''))) (\<lambda>description.
     bindE (gardening_bookingRows bookingDetails) (\<lambda>bookingRows.
     bindE (gardening_adminContent userDetails bookingRows description) (\<lambda>adminContent.
     bindE (gardening_userContent userDetails bookingRows) (\<lambda>userContent.
     Inr (userDetails, emailAttachments req, adminContent, userContent))))))))))"

definition book_gardening :: "runtime \<Rightarrow> request \<Rightarrow> world \<Rightarrow> outcome \<times> world" where
  "book_gardening rt req w =
     booking_catch
       (bindIO (liftE (gardening_contents rt req))
          (booking_sends rt ''New Gardening Job Alert'' ''New Gardening Job'') w)"

text \<open>The routes: \<open>app.post(path, handler)\<close>.\<close>

definition app_post :: "string \<Rightarrow> (runtime \<Rightarrow> request \<Rightarrow> world \<Rightarrow> outcome \<times> world) option" where
  "app_post path =
     (if path = ''/api/contact'' then Some contact
      else if path = ''/api/book-cleaning'' then Some book_cleaning
      else if path = ''/api/book-gardening'' then Some book_gardening
      else None)"

section \<open>The specification's wording\<close>

text \<open>
  The specification calls a field that is absent, \<open>null\<close> or the empty string
  ``not provided''.
\<close>

definition provided :: "jsval \<Rightarrow> bool" where
  "provided v = (v \<noteq> JUndefined \<and> v \<noteq> JNull \<and> v \<noteq> JStr '''')"

text \<open>
  The rule of the specification for a structured object, with the reading of
  ``non-empty'' and ``present'' as a parameter: the first of \<open>label\<close>, \<open>value\<close>, \<open>name\<close> that
  is present; else \<open>id\<close> when present and not \<open>"other"\<close>; else \<open>other\<close> when present; else
  the first value when it is a string; else \<open>"Provided"\<close>.
\<close>

definition spec_formatObject :: "(jsval \<Rightarrow> bool) \<Rightarrow> (string \<times> jsval) list \<Rightarrow> jsval" where
  "spec_formatObject present kvs =
     (case find present (map (own_property kvs) [''label'', ''value'', ''name'']) of
        Some v \<Rightarrow> v
      | None \<Rightarrow>
          if present (own_property kvs ''id'') \<and> own_property kvs ''id'' \<noteq> JStr ''other''
            then own_property kvs ''id''
          else if present (own_property kvs ''other'') then own_property kvs ''other''
          else (case kvs of (k, JStr s) # rest \<Rightarrow> JStr s | _ \<Rightarrow> JStr ''Provided''))"

text \<open>The text of a formatted element: the element formatted, then converted to a string.\<close>

definition display_string :: "jsval \<Rightarrow> js_error + string" where
  "display_string x = bindE (formatValue x) ToString"

section \<open>Notions for stating the properties of the handlers\<close>

text \<open>The customer address of a booking: \<open>userDetails.email\<close> of the parsed \<open>userDetails\<close>.\<close>

definition submitter_email :: "runtime \<Rightarrow> request \<Rightarrow> js_error + jsval" where
  "submitter_email rt req =
     bindE (js_member (body req) ''userDetails'') (\<lambda>userDetails_text.
     bindE (JSON_parse rt userDetails_text) (\<lambda>userDetails. js_member userDetails ''email''))"

text \<open>The parsed \<open>bookingDetails\<close> of a booking request.\<close>

definition request_bookingDetails :: "runtime \<Rightarrow> request \<Rightarrow> js_error + jsval" where
  "request_bookingDetails rt req =
     bindE (js_member (body req) ''bookingDetails'') (JSON_parse rt)"

text \<open>
  A value every part of which converts to a string: no object in it has a key
  \<open>toString\<close> of its own.
\<close>

fun stringifiable :: "jsval \<Rightarrow> bool" where
  "stringifiable (JArr xs) = list_all stringifiable xs"
| "stringifiable (JObj kvs) =
     (map_of kvs ''toString'' = None \<and> list_all stringifiable (map snd kvs))"
| "stringifiable v = True"

text \<open>
  A booking request whose contents the handlers can build: both JSON texts parse, to
  values other than \<open>null\<close> and \<open>undefined\<close>, and these and the description convert to
  strings throughout.
\<close>

definition request_userDetails :: "runtime \<Rightarrow> request \<Rightarrow> js_error + jsval" where
  "request_userDetails rt req =
     bindE (js_member (body req) ''userDetails'') (JSON_parse rt)"

definition well_formed_booking :: "runtime \<Rightarrow> request \<Rightarrow> jsval \<Rightarrow> jsval \<Rightarrow> bool" where
  "well_formed_booking rt req userDetails bookingDetails =
     (request_userDetails rt req = Inr userDetails \<and>
      request_bookingDetails rt req = Inr bookingDetails \<and>
      userDetails \<noteq> JUndefined \<and> userDetails \<noteq> JNull \<and> stringifiable userDetails \<and>
      bookingDetails \<noteq> JUndefined \<and> bookingDetails \<noteq> JNull \<and> stringifiable bookingDetails \<and>
      (case js_member (body req) ''description'' of
         Inl e \<Rightarrow> False
       | Inr d \<Rightarrow> stringifiable d))"

text \<open>
  The transport calls a handler run added to the world, and whether the transport
  resolved the \<open>k\<close>-th call of a trace (given the calls before it).
\<close>

definition new_calls :: "world \<Rightarrow> world \<Rightarrow> mail list" where
  "new_calls w w' = drop (length (transport_calls w)) (transport_calls w')"

definition accepted :: "runtime \<Rightarrow> mail list \<Rightarrow> nat \<Rightarrow> bool" where
  "accepted rt calls k = (sendMail rt (take k calls) (calls ! k) = None)"

abbreviation Success200 :: outcome where
  "Success200 \<equiv> Responded (Response 200 True)"

abbreviation Failure500 :: outcome where
  "Failure500 \<equiv> Responded (Response 500 False)"

section \<open>Example inputs\<close>

text \<open>
  A runtime whose \<open>JSON.parse\<close> knows the three texts of the example bookings, with the
  transport as a parameter; the contact submission and the cleaning booking of the
  specification's examples and a gardening booking, each booking with one uploaded file;
  and the world before a run.
\<close>

definition example_userDetails :: jsval where
  "example_userDetails =
     JObj [(''name'', JStr ''Ann''), (''email'', JStr ''ann@x.com''), (''phone'', JStr ''123'')]"

definition example_cleaningDetails :: jsval where
  "example_cleaningDetails =
     JObj [(''bestDays'', JObj [(''bestDays'', JArr [JStr ''Mon'', JStr ''Wed'']),
                                (''other'', JStr ''evenings'')])]"

definition example_gardeningDetails :: jsval where
  "example_gardeningDetails =
     JObj [(''services'', JArr [JStr ''Lawn mowing'', JStr ''Hedge trimming'']),
           (''gardenSize'', JObj [(''id'', JStr ''large''), (''label'', JStr ''Large'')])]"

definition example_parse :: "string \<Rightarrow> js_error + jsval" where
  \<open>example_parse s =
     (if s = ''{"name":"Ann","email":"ann@x.com","phone":"123"}''
        then Inr example_userDetails
      else if s = ''{"bestDays":{"bestDays":["Mon","Wed"],"other":"evenings"}}''
        then Inr example_cleaningDetails
      else if s = ''{"services":["Lawn mowing","Hedge trimming"],"gardenSize":{"id":"large","label":"Large"}}''
        then Inr example_gardeningDetails
      else Inl SyntaxError)\<close>

definition example_runtime :: "(mail list \<Rightarrow> mail \<Rightarrow> js_error option) \<Rightarrow> runtime" where
  "example_runtime transport =
     \<lparr>EMAIL_USER = Some ''noreply@loksar.com'', ADMIN_EMAIL = Some ''admin@loksar.com'',
      parse_json = example_parse, sendMail = transport, getFullYear = JSNumber True ''2026''\<rparr>"

definition accepting :: "mail list \<Rightarrow> mail \<Rightarrow> js_error option" where
  "accepting calls m = None"

definition rejecting :: "mail list \<Rightarrow> mail \<Rightarrow> js_error option" where
  "rejecting calls m = Some (TransportError ''ECONNREFUSED'')"

definition contact_request :: request where
  "contact_request =
     \<lparr>body = JObj [(''name'', JStr ''Ann''), (''email'', JStr ''ann@x.com''),
                   (''phone'', JStr ''123''), (''subject'', JStr ''Leak''),
                   (''message'', JStr ''Help'')],
      files = None\<rparr>"

definition booking_request :: request where
  \<open>booking_request =
     \<lparr>body = JObj [(''userDetails'', JStr ''{"name":"Ann","email":"ann@x.com","phone":"123"}''),
                   (''bookingDetails'',
                    JStr ''{"bestDays":{"bestDays":["Mon","Wed"],"other":"evenings"}}'')],
      files = Some [\<lparr>originalname = ''leak.jpg'', buffer = [255, 216]\<rparr>]\<rparr>\<close>

definition gardening_request :: request where
  \<open>gardening_request =
     \<lparr>body = JObj [(''userDetails'', JStr ''{"name":"Ann","email":"ann@x.com","phone":"123"}''),
                   (''bookingDetails'',
                    JStr ''{"services":["Lawn mowing","Hedge trimming"],"gardenSize":{"id":"large","label":"Large"}}''),
                   (''description'', JStr '''')],
      files = Some [\<lparr>originalname = ''hedge.png'', buffer = [137, 80]\<rparr>]\<rparr>\<close>

definition empty_world :: world where
  "empty_world = \<lparr>transport_calls = [], console = []\<rparr>"

section \<open>Properties of the value formatter\<close>

lemma typeof_string: "typeof v = ''string'' \<longleftrightarrow> (\<exists>s. v = JStr s)"
  by (cases v) auto

lemma sequenceE_Inl: "sequenceE ms = Inl e \<Longrightarrow> Inl e \<in> set ms"
  by (induction ms) (auto split: sum.splits)

text \<open>Every error of a string conversion or of the formatter is a TypeError.\<close>

lemma ToString_error: "ToString x = Inl e \<Longrightarrow> e = TypeError"
proof (induction x arbitrary: e rule: ToString.induct)
  case (6 xs)
  then show ?case
    by (auto simp: bindE_def split: sum.splits if_splits dest!: sequenceE_Inl)
qed (auto split: if_splits)

lemma join_element_error: "join_element x = Inl e \<Longrightarrow> e = TypeError"
  by (auto simp: join_element_def dest: ToString_error split: if_splits)

lemma Array_join_error: "Array_join ys sep = Inl e \<Longrightarrow> e = TypeError"
  by (auto simp: Array_join_def bindE_def split: sum.splits
      dest!: sequenceE_Inl join_element_error[OF sym])

lemma formatValue_error: "formatValue x = Inl e \<Longrightarrow> e = TypeError"
proof (induction x arbitrary: e rule: formatValue.induct)
  case (5 xs)
  then show ?case
    by (auto simp: bindE_def split: sum.splits if_splits dest!: sequenceE_Inl Array_join_error)
qed (auto simp: bindE_def split: if_splits list.splits)

text \<open>The formatter never returns \<open>undefined\<close> or \<open>null\<close>.\<close>

lemma formatValue_defined: "formatValue x = Inr y \<Longrightarrow> y \<noteq> JUndefined \<and> y \<noteq> JNull"
  by (cases x)
    (auto simp: bindE_def Object_values_def typeof_string split: if_splits sum.splits list.splits)

text \<open>
  Formatting every element and then joining is the same as taking the text of each
  formatted element in turn.
\<close>

lemma join_formatted:
  "bindE (sequenceE (map formatValue xs))
     (\<lambda>ys. bindE (sequenceE (map join_element ys)) (\<lambda>ss. Inr (f ss)))
   = bindE (sequenceE (map display_string xs)) (\<lambda>ss. Inr (f ss))"
proof (induction xs arbitrary: f)
  case Nil
  then show ?case by (simp add: bindE_def)
next
  case (Cons x xs)
  show ?case
  proof (cases "formatValue x")
    case (Inl e)
    then show ?thesis by (simp add: bindE_def display_string_def)
  next
    case (Inr y)
    then have y: "join_element y = ToString y"
      using formatValue_defined[OF Inr] by (simp add: join_element_def)
    show ?thesis
    proof (cases "ToString y")
      case (Inl e)
      then have e: "e = TypeError" by (rule ToString_error)
      have "\<And>e'. sequenceE (map formatValue xs) = Inl e' \<Longrightarrow> e' = TypeError"
        by (auto dest!: sequenceE_Inl formatValue_error[OF sym])
      then show ?thesis using Inl Inr y e
        by (auto simp: bindE_def display_string_def split: sum.splits)
    next
      case s: (Inr s)
      have "bindE (sequenceE (map formatValue (x # xs)))
              (\<lambda>ys. bindE (sequenceE (map join_element ys)) (\<lambda>ss. Inr (f ss)))
            = bindE (sequenceE (map formatValue xs))
              (\<lambda>ys. bindE (sequenceE (map join_element ys)) (\<lambda>ss. Inr (f (s # ss))))"
        using Inr y s by (auto simp: bindE_def split: sum.splits)
      also have "\<dots> = bindE (sequenceE (map display_string xs)) (\<lambda>ss. Inr (f (s # ss)))"
        by (rule Cons.IH)
      also have "\<dots> = bindE (sequenceE (map display_string (x # xs))) (\<lambda>ss. Inr (f ss))"
        using Inr s by (auto simp: bindE_def display_string_def split: sum.splits)
      finally show ?thesis .
    qed
  qed
qed

text \<open>
  C1, as amended. For every object, \<open>formatValue\<close> follows the priority rule of the
  specification where ``non-empty'' and ``present'' mean truthy (a field that is absent,
  \<open>undefined\<close>, \<open>null\<close>, \<open>""\<close>, \<open>0\<close> or \<open>false\<close> is passed over): the first truthy one of
  \<open>label\<close>, \<open>value\<close>, \<open>name\<close>; else a truthy \<open>id\<close> other than \<open>"other"\<close>; else a truthy
  \<open>other\<close>; else the first value when it is a string; else \<open>"Provided"\<close>. In particular
  \<open>{id: "other", other: "Custom"}\<close> gives \<open>"Custom"\<close> and \<open>{label: "X", value: "Y"}\<close> gives
  \<open>"X"\<close>.
\<close>

theorem formatValue_object_priority:
  "formatValue (JObj kvs) = Inr (spec_formatObject truthy kvs) \<and>
   formatValue (JObj [(''id'', JStr ''other''), (''other'', JStr ''Custom'')]) = Inr (JStr ''Custom'') \<and>
   formatValue (JObj [(''label'', JStr ''X''), (''value'', JStr ''Y'')]) = Inr (JStr ''X'')"
proof -
  have "formatValue (JObj kvs) = Inr (spec_formatObject truthy kvs)"
    by (auto simp: spec_formatObject_def Object_values_def typeof_string
        split: list.splits jsval.splits)
  moreover have "formatValue (JObj [(''id'', JStr ''other''), (''other'', JStr ''Custom'')])
      = Inr (JStr ''Custom'')"
    by (simp add: own_property_def)
  moreover have "formatValue (JObj [(''label'', JStr ''X''), (''value'', JStr ''Y'')])
      = Inr (JStr ''X'')"
    by (simp add: own_property_def)
  ultimately show ?thesis by blast
qed

text \<open>
  C1 as stated fails: in \<open>{id: 0}\<close> the \<open>id\<close> field is present (it is neither absent nor
  \<open>null\<close> nor empty) and is not \<open>"other"\<close>, so the stated rule returns it, while the code
  tests \<open>data.id\<close> for truth, passes over \<open>0\<close> and ends at \<open>"Provided"\<close>.
\<close>

theorem formatValue_object_present_counterexample:
  "formatValue (JObj [(''id'', JNum (JSNumber False ''0''))]) \<noteq> Inr (spec_formatObject provided [(''id'', JNum (JSNumber False ''0''))]) \<and>
   formatValue (JObj [(''id'', JNum (JSNumber False ''0''))]) = Inr (JStr ''Provided'') \<and>
   spec_formatObject provided [(''id'', JNum (JSNumber False ''0''))] = JNum (JSNumber False ''0'')"
  by (simp add: spec_formatObject_def own_property_def provided_def Object_values_def)

text \<open>
  C2. For \<open>null\<close>, \<open>undefined\<close> and the empty string \<open>formatValue\<close> returns \<open>"N/A"\<close>.
\<close>

theorem formatValue_not_provided:
  "formatValue JNull = Inr (JStr ''N/A'') \<and>
   formatValue JUndefined = Inr (JStr ''N/A'') \<and>
   formatValue (JStr '''') = Inr (JStr ''N/A'')"
  by simp

text \<open>
  C3. For the empty array \<open>formatValue\<close> returns \<open>"N/A"\<close>. For a non-empty array it is
  \<open>data.map(formatValue).join(', ')\<close>: the elements are formatted from left to right and
  the results joined with \<open>", "\<close>; equally, the result is the string that joins, with
  \<open>", "\<close>, the texts of the formatted elements (and an element whose formatting or
  conversion throws makes the whole call throw).
\<close>

theorem formatValue_array_join:
  "formatValue (JArr []) = Inr (JStr ''N/A'') \<and>
   (xs \<noteq> [] \<longrightarrow>
      formatValue (JArr xs) =
        bindE (sequenceE (map formatValue xs))
          (\<lambda>ys. bindE (Array_join ys '', '') (\<lambda>s. Inr (JStr s))) \<and>
      formatValue (JArr xs) =
        bindE (sequenceE (map display_string xs)) (\<lambda>ss. Inr (JStr (join_strings '', '' ss))))"
  using join_formatted[of xs "\<lambda>ss. JStr (join_strings '', '' ss)"]
  by (auto simp: Array_join_def bindE_def split: sum.splits)

theorem formatValue_array_join_witness:
  "[JStr ''Mon'', JNum (JSNumber True ''12''), JNull] \<noteq> [] \<and>
   formatValue (JArr [JStr ''Mon'', JNum (JSNumber True ''12''), JNull]) = Inr (JStr ''Mon, 12, N/A'') \<and>
   bindE (sequenceE (map display_string [JStr ''Mon'', JNum (JSNumber True ''12''), JNull]))
     (\<lambda>ss. Inr (JStr (join_strings '', '' ss))) = Inr (JStr ''Mon, 12, N/A'')"
  using formatValue_array_join[of "[JStr ''Mon'', JNum (JSNumber True ''12''), JNull]"]
  by (simp add: Array_join_def join_element_def bindE_def)

text \<open>
  C4, as amended. A non-empty string is returned unchanged (the empty string gives
  \<open>"N/A"\<close>). A number, integer or not, is returned unchanged as a number, not as a
  string; its string form appears where the caller converts the result, as a template
  literal does.
\<close>

theorem formatValue_string_number:
  "(s \<noteq> '''' \<longrightarrow> formatValue (JStr s) = Inr (JStr s)) \<and>
   formatValue (JStr '''') = Inr (JStr ''N/A'') \<and>
   formatValue (JNum n) = Inr (JNum n) \<and>
   typeof (JNum n) = ''number'' \<and>
   template [Val (formatValue (JNum n))] = Inr (number_string n)"
  by (simp add: template_def bindE_def)

theorem formatValue_string_number_witness:
  "''Mon'' \<noteq> '''' \<and> formatValue (JStr ''Mon'') = Inr (JStr ''Mon'') \<and>
   formatValue (JNum (JSNumber True ''2.5'')) = Inr (JNum (JSNumber True ''2.5'')) \<and>
   template [Val (formatValue (JNum (JSNumber True ''2.5'')))] = Inr ''2.5'' \<and>
   formatValue (JNum (JSNumber True ''1e+21'')) = Inr (JNum (JSNumber True ''1e+21'')) \<and>
   template [Val (formatValue (JNum (JSNumber True ''1e+21'')))] = Inr ''1e+21''"
  using formatValue_string_number[of "''Mon''" "JSNumber True ''2.5''"]
    formatValue_string_number[of "''Mon''" "JSNumber True ''1e+21''"]
  by simp

text \<open>
  C4 as stated fails: for the number \<open>5\<close> the result is the number, not the string
  \<open>"5"\<close>, and the empty string is not returned unchanged.
\<close>

theorem formatValue_string_number_counterexample:
  "formatValue (JNum (JSNumber True ''5'')) \<noteq> Inr (JStr ''5'') \<and>
   typeof (JNum (JSNumber True ''5'')) \<noteq> ''string'' \<and>
   formatValue (JStr '''') \<noteq> Inr (JStr '''')"
  by simp

section \<open>The dispatcher and the shape of a handler run\<close>

lemma ToString_env_value: "ToString (env_value v) \<noteq> Inl e"
  by (cases v) (auto simp: env_value_def)

lemma sendEmail_result:
  "sendEmail rt to subject html atts w = (r, w') \<Longrightarrow>
     transport_calls w' = transport_calls w @ [mail_options rt to subject html atts] \<and>
     (case sendMail rt (transport_calls w) (mail_options rt to subject html atts) of
        Some e \<Rightarrow> r = Inl e
      | None \<Rightarrow> (case ToString to of Inl e \<Rightarrow> r = Inl e | Inr t \<Rightarrow> r = Inr ()))"
  by (auto simp: sendEmail_def Let_def split: option.splits sum.splits)

lemma bindIO_liftE_Inr: "bindIO (liftE (Inr a)) f = f a"
  by (rule ext) (simp add: bindIO_def liftE_def)

lemma bindIO_liftE_Inl: "bindIO (liftE (Inl e)) f w = (Inl e, w)"
  by (simp add: bindIO_def liftE_def)

text \<open>
  Two awaited sends in a row, the second address read in between: either the first send
  throws, or the address cannot be read, and nothing follows; or the transport took the
  first mail and the second send is made, and the whole returns only if the second is
  taken too.
\<close>

lemma two_sends_cases:
  assumes "bindIO (sendEmail rt to1 s1 h1 a1) (\<lambda>_. bindIO (liftE c) (\<lambda>to2.
             bindIO (sendEmail rt to2 s2 h2 a2) (\<lambda>_. liftE (Inr res)))) w = (r, w')"
  obtains
    (first_only) e where
      "transport_calls w' = transport_calls w @ [mail_options rt to1 s1 h1 a1]" "r = Inl e"
      "sendMail rt (transport_calls w) (mail_options rt to1 s1 h1 a1) \<noteq> None \<or>
       (\<exists>e. ToString to1 = Inl e) \<or> (\<exists>e. c = Inl e)"
  | (both_sent) to2 where
      "c = Inr to2"
      "transport_calls w' =
         transport_calls w @ [mail_options rt to1 s1 h1 a1, mail_options rt to2 s2 h2 a2]"
      "sendMail rt (transport_calls w) (mail_options rt to1 s1 h1 a1) = None"
      "r = Inr res \<and>
         sendMail rt (transport_calls w @ [mail_options rt to1 s1 h1 a1])
           (mail_options rt to2 s2 h2 a2) = None
       \<or> (\<exists>e. r = Inl e) \<and>
         (sendMail rt (transport_calls w @ [mail_options rt to1 s1 h1 a1])
            (mail_options rt to2 s2 h2 a2) \<noteq> None \<or> (\<exists>e. ToString to2 = Inl e))"
proof -
  obtain r1 w1 where s1: "sendEmail rt to1 s1 h1 a1 w = (r1, w1)"
    by (cases "sendEmail rt to1 s1 h1 a1 w")
  note f1 = sendEmail_result[OF s1]
  show ?thesis
  proof (cases r1)
    case (Inl e)
    then show ?thesis using assms s1 f1 first_only[of e]
      by (auto simp: bindIO_def split: option.splits sum.splits)
  next
    case (Inr u)
    then have acc: "sendMail rt (transport_calls w) (mail_options rt to1 s1 h1 a1) = None"
      using f1 by (auto split: option.splits)
    show ?thesis
    proof (cases c)
      case (Inl e)
      then show ?thesis using assms s1 f1 Inr first_only[of e]
        by (auto simp: bindIO_def liftE_def)
    next
      case to2: (Inr to2)
      obtain r2 w2 where s2: "sendEmail rt to2 s2 h2 a2 w1 = (r2, w2)"
        by (cases "sendEmail rt to2 s2 h2 a2 w1")
      note f2 = sendEmail_result[OF s2]
      have "r = (case r2 of Inl e \<Rightarrow> Inl e | Inr u \<Rightarrow> Inr res)" "w' = w2"
        using assms s1 s2 Inr to2
        by (auto simp: bindIO_def liftE_def split: sum.splits)
      then show ?thesis using f1 f2 acc to2 both_sent[of to2]
        by (auto split: option.splits sum.splits)
    qed
  qed
qed

text \<open>A booking handler: no send, the admin send alone, or both sends in order.\<close>

lemma booking_cases:
  assumes "booking_catch (bindIO (liftE c) (booking_sends rt subj title) w) = (out, w')"
  obtains
    (none) e where "c = Inl e" "transport_calls w' = transport_calls w" "out = Failure500"
  | (one) userDetails atts adminContent userContent where
      "c = Inr (userDetails, atts, adminContent, userContent)"
      "transport_calls w' = transport_calls w @
         [mail_options rt (env_value (ADMIN_EMAIL rt)) subj
            (generateEmailTemplate rt title adminContent) (Some atts)]"
      "out = Failure500"
      "sendMail rt (transport_calls w)
         (mail_options rt (env_value (ADMIN_EMAIL rt)) subj
            (generateEmailTemplate rt title adminContent) (Some atts)) \<noteq> None \<or>
       (\<exists>e. js_member userDetails ''email'' = Inl e)"
  | (two) userDetails atts adminContent userContent email where
      "c = Inr (userDetails, atts, adminContent, userContent)"
      "js_member userDetails ''email'' = Inr email"
      "transport_calls w' = transport_calls w @
         [mail_options rt (env_value (ADMIN_EMAIL rt)) subj
            (generateEmailTemplate rt title adminContent) (Some atts),
          mail_options rt email ''Booking Received - Loksar Services''
            (generateEmailTemplate rt ''Booking Received'' userContent) None]"
      "sendMail rt (transport_calls w)
         (mail_options rt (env_value (ADMIN_EMAIL rt)) subj
            (generateEmailTemplate rt title adminContent) (Some atts)) = None"
      "out = Success200 \<and>
         sendMail rt (transport_calls w @
           [mail_options rt (env_value (ADMIN_EMAIL rt)) subj
              (generateEmailTemplate rt title adminContent) (Some atts)])
           (mail_options rt email ''Booking Received - Loksar Services''
              (generateEmailTemplate rt ''Booking Received'' userContent) None) = None
       \<or> out = Failure500 \<and>
         (sendMail rt (transport_calls w @
           [mail_options rt (env_value (ADMIN_EMAIL rt)) subj
              (generateEmailTemplate rt title adminContent) (Some atts)])
           (mail_options rt email ''Booking Received - Loksar Services''
              (generateEmailTemplate rt ''Booking Received'' userContent) None) \<noteq> None \<or>
          (\<exists>e. ToString email = Inl e))"
proof (cases c)
  case (Inl e)
  then show ?thesis using assms none
    by (auto simp: booking_catch_def bindIO_def liftE_def)
next
  case (Inr t)
  obtain userDetails atts adminContent userContent
    where t: "t = (userDetails, atts, adminContent, userContent)"
    by (cases t) auto
  obtain r w1
    where s: "booking_sends rt subj title (userDetails, atts, adminContent, userContent) w = (r, w1)"
    by (cases "booking_sends rt subj title (userDetails, atts, adminContent, userContent) w")
  have out: "out = (case r of Inl e \<Rightarrow> Failure500 | Inr res \<Rightarrow> Responded res)"
    and w': "transport_calls w' = transport_calls w1"
    using assms Inr t s
    by (auto simp: booking_catch_def bindIO_def liftE_def split: sum.splits)
  from s[unfolded booking_sends_def prod.case] show ?thesis
  proof (cases rule: two_sends_cases)
    case (first_only e)
    then show ?thesis using Inr t out w' one[of userDetails atts adminContent userContent]
      by (simp add: ToString_env_value)
  next
    case (both_sent to2)
    then show ?thesis using Inr t out w' two[of userDetails atts adminContent userContent to2]
      by auto
  qed
qed

text \<open>The contact handler, in the same three shapes, or an error before its \<open>try\<close>.\<close>

lemma contact_cases:
  assumes "contact rt req w = (out, w')"
  obtains
    (escaped) e where "contact_contents req = Inl e" "out = Unhandled e" "w' = w"
  | (none) email subject adminContent userContent e where
      "contact_contents req = Inr (email, subject, adminContent, userContent)"
      "ToString subject = Inl e"
      "transport_calls w' = transport_calls w" "out = Failure500"
  | (one) email subject adminContent userContent s where
      "contact_contents req = Inr (email, subject, adminContent, userContent)"
      "ToString subject = Inr s"
      "transport_calls w' = transport_calls w @
         [mail_options rt (env_value (ADMIN_EMAIL rt)) (''New Contact: '' @ s)
            (generateEmailTemplate rt ''New Contact'' adminContent) None]"
      "out = Failure500"
      "sendMail rt (transport_calls w)
         (mail_options rt (env_value (ADMIN_EMAIL rt)) (''New Contact: '' @ s)
            (generateEmailTemplate rt ''New Contact'' adminContent) None) \<noteq> None"
  | (two) email subject adminContent userContent s where
      "contact_contents req = Inr (email, subject, adminContent, userContent)"
      "ToString subject = Inr s"
      "transport_calls w' = transport_calls w @
         [mail_options rt (env_value (ADMIN_EMAIL rt)) (''New Contact: '' @ s)
            (generateEmailTemplate rt ''New Contact'' adminContent) None,
          mail_options rt email ''We received your message - Loksar''
            (generateEmailTemplate rt ''Thank You'' userContent) None]"
      "sendMail rt (transport_calls w)
         (mail_options rt (env_value (ADMIN_EMAIL rt)) (''New Contact: '' @ s)
            (generateEmailTemplate rt ''New Contact'' adminContent) None) = None"
      "out = Success200 \<and>
         sendMail rt (transport_calls w @
           [mail_options rt (env_value (ADMIN_EMAIL rt)) (''New Contact: '' @ s)
              (generateEmailTemplate rt ''New Contact'' adminContent) None])
           (mail_options rt email ''We received your message - Loksar''
              (generateEmailTemplate rt ''Thank You'' userContent) None) = None
       \<or> out = Failure500 \<and>
         (sendMail rt (transport_calls w @
           [mail_options rt (env_value (ADMIN_EMAIL rt)) (''New Contact: '' @ s)
              (generateEmailTemplate rt ''New Contact'' adminContent) None])
           (mail_options rt email ''We received your message - Loksar''
              (generateEmailTemplate rt ''Thank You'' userContent) None) \<noteq> None \<or>
          (\<exists>e. ToString email = Inl e))"
proof (cases "contact_contents req")
  case (Inl e)
  then show ?thesis using assms escaped[of e] by (auto simp: contact_def)
next
  case (Inr t)
  obtain email subject adminContent userContent
    where t: "t = (email, subject, adminContent, userContent)"
    by (cases t) auto
  obtain r w1 where s: "contact_try rt email subject adminContent userContent w = (r, w1)"
    by (cases "contact_try rt email subject adminContent userContent w")
  have out: "out = (case r of Inl e \<Rightarrow> Failure500 | Inr res \<Rightarrow> Responded res)" and w': "w' = w1"
    using assms Inr t s by (auto simp: contact_def split: sum.splits)
  show ?thesis
  proof (cases "ToString subject")
    case (Inl e)
    then show ?thesis using s out w' Inr t none[of email subject adminContent userContent e]
      by (auto simp: contact_try_def template_def bindE_def bindIO_liftE_Inl)
  next
    case str: (Inr str)
    then have "bindIO (sendEmail rt (env_value (ADMIN_EMAIL rt)) (''New Contact: '' @ str)
                 (generateEmailTemplate rt ''New Contact'' adminContent) None) (\<lambda>_.
               bindIO (liftE (Inr email)) (\<lambda>to2.
               bindIO (sendEmail rt to2 ''We received your message - Loksar''
                 (generateEmailTemplate rt ''Thank You'' userContent) None) (\<lambda>_.
               liftE (Inr (Response 200 True))))) w = (r, w1)"
      using s by (simp add: contact_try_def template_def bindE_def bindIO_liftE_Inr)
    then show ?thesis
    proof (cases rule: two_sends_cases)
      case (first_only e)
      then show ?thesis
        using out w' Inr t str one[of email subject adminContent userContent str]
        by (simp add: ToString_env_value)
    next
      case (both_sent to2)
      then show ?thesis
        using out w' Inr t str two[of email subject adminContent userContent str]
        by auto
    qed
  qed
qed

text \<open>Every route, in the three shapes.\<close>

lemma handler_cases:
  assumes "app_post path = Some handler" and "handler rt req w = (out, w')"
  obtains
    (none) "transport_calls w' = transport_calls w" "out \<noteq> Success200"
  | (one) m1 where
      "transport_calls w' = transport_calls w @ [m1]" "out = Failure500"
      "mail_to m1 = env_value (ADMIN_EMAIL rt)"
  | (two) m1 m2 where
      "transport_calls w' = transport_calls w @ [m1, m2]"
      "mail_to m1 = env_value (ADMIN_EMAIL rt)"
      "sendMail rt (transport_calls w) m1 = None"
      "out = Success200 \<and> sendMail rt (transport_calls w @ [m1]) m2 = None \<or> out = Failure500"
proof -
  consider "handler = contact" | "handler = book_cleaning" | "handler = book_gardening"
    using assms(1) by (auto simp: app_post_def split: if_splits)
  then show ?thesis
  proof cases
    case 1
    with assms(2) have "contact rt req w = (out, w')" by simp
    then show ?thesis
    proof (cases rule: contact_cases)
      case (escaped e)
      then show ?thesis using none by simp
    next
      case none': (none email subject adminContent userContent e)
      then show ?thesis using none by simp
    next
      case (one email subject adminContent userContent s)
      then show ?thesis using that(2) by (simp add: mail_options_def)
    next
      case (two email subject adminContent userContent s)
      then show ?thesis using that(3) by (auto simp: mail_options_def)
    qed
  next
    case 2
    with assms(2) have "booking_catch (bindIO (liftE (cleaning_contents rt req))
          (booking_sends rt ''New Cleaning Job Alert'' ''New Cleaning Job'') w) = (out, w')"
      by (simp add: book_cleaning_def)
    then show ?thesis
    proof (cases rule: booking_cases)
      case (none e)
      then show ?thesis using that(1) by simp
    next
      case (one userDetails atts adminContent userContent)
      then show ?thesis using that(2) by (simp add: mail_options_def)
    next
      case (two userDetails atts adminContent userContent email)
      then show ?thesis using that(3) by (auto simp: mail_options_def)
    qed
  next
    case 3
    with assms(2) have "booking_catch (bindIO (liftE (gardening_contents rt req))
          (booking_sends rt ''New Gardening Job Alert'' ''New Gardening Job'') w) = (out, w')"
      by (simp add: book_gardening_def)
    then show ?thesis
    proof (cases rule: booking_cases)
      case (none e)
      then show ?thesis using that(1) by simp
    next
      case (one userDetails atts adminContent userContent)
      then show ?thesis using that(2) by (simp add: mail_options_def)
    next
      case (two userDetails atts adminContent userContent email)
      then show ?thesis using that(3) by (auto simp: mail_options_def)
    qed
  qed
qed

section \<open>Where a value stands in a rendered template\<close>

lemma sequenceE_Inr: "sequenceE ms = Inr as \<Longrightarrow> ms = map Inr as"
  by (induction ms arbitrary: as) (auto split: sum.splits)

lemma template_Inr:
  assumes "template ps = Inr s"
  obtains ss where "map piece_string ps = map Inr ss" "s = concat ss"
  using assms by (auto simp: template_def bindE_def split: sum.splits dest: sequenceE_Inr)

text \<open>
  A hole between two literals, at position \<open>k\<close> of the pieces: the rendered text
  holds the literal before, the text of the value and the literal after, in a row.
\<close>

lemma template_hole:
  assumes "template ps = Inr s" and "drop k ps = Lit a # Val c # Lit b # qs"
  shows "\<exists>t. bindE c ToString = Inr t \<and> sublist (a @ t @ b) s"
proof -
  from assms(1) obtain ss where ss: "map piece_string ps = map Inr ss" "s = concat ss"
    by (rule template_Inr)
  have "map Inr (drop k ss) = map piece_string (drop k ps)"
    by (metis ss(1) drop_map)
  also have "\<dots> = Inr a # bindE c ToString # Inr b # map piece_string qs"
    by (simp add: assms(2))
  finally have "\<exists>t rest. bindE c ToString = Inr t \<and> drop k ss = a # t # b # rest"
    by (auto simp: map_eq_Cons_conv)
  then obtain t rest where t: "bindE c ToString = Inr t" "drop k ss = a # t # b # rest"
    by blast
  have "s = concat (take k ss) @ concat (drop k ss)"
    unfolding ss(2) by (metis append_take_drop_id concat_append)
  then have "s = concat (take k ss) @ (a @ t @ b) @ concat rest"
    by (simp add: t(2))
  then show ?thesis using t(1) by (metis sublist_appendI)
qed

text \<open>The same with one more literal line before the hole.\<close>

lemma template_hole_after_line:
  assumes "template ps = Inr s" and "drop k ps = Lit l # Lit a # Val c # Lit b # qs"
  shows "\<exists>t. bindE c ToString = Inr t \<and> sublist (l @ a @ t @ b) s"
proof -
  from assms(1) obtain ss where ss: "map piece_string ps = map Inr ss" "s = concat ss"
    by (rule template_Inr)
  have "map Inr (drop k ss) = map piece_string (drop k ps)"
    by (metis ss(1) drop_map)
  also have "\<dots> = Inr l # Inr a # bindE c ToString # Inr b # map piece_string qs"
    by (simp add: assms(2))
  finally have "\<exists>t rest. bindE c ToString = Inr t \<and> drop k ss = l # a # t # b # rest"
    by (auto simp: map_eq_Cons_conv)
  then obtain t rest where t: "bindE c ToString = Inr t" "drop k ss = l # a # t # b # rest"
    by blast
  have "s = concat (take k ss) @ concat (drop k ss)"
    unfolding ss(2) by (metis append_take_drop_id concat_append)
  then have "s = concat (take k ss) @ (l @ a @ t @ b) @ concat rest"
    by (simp add: t(2))
  then show ?thesis using t(1) by (metis sublist_appendI)
qed

lemma sublist_middle: "sublist (a @ t @ b) s \<Longrightarrow> sublist t s"
  unfolding sublist_def by (metis append.assoc)

text \<open>A string value in a hole stands in the rendered text as it is.\<close>

lemma template_hole_string:
  assumes "template ps = Inr s" and "drop k ps = Lit a # Val (Inr (JStr v)) # Lit b # qs"
  shows "sublist v s"
  using template_hole[OF assms] by (auto simp: bindE_def dest: sublist_middle)

lemma sublist_concat: "x \<in> set xs \<Longrightarrow> sublist x (concat xs)"
  by (auto simp: in_set_conv_decomp)

text \<open>The document holds the content fragment as it is.\<close>

lemma sublist_generateEmailTemplate: "sublist c (generateEmailTemplate rt title c)"
  unfolding generateEmailTemplate_def by (rule sublist_concat) simp

section \<open>The contents of the booking emails\<close>

lemma cleaning_contents_Inr:
  assumes "cleaning_contents rt req = Inr (userDetails, atts, adminContent, userContent)"
  obtains bookingDetails d bestDays currentCleaner cleaningType bookingRows where
    "atts = emailAttachments req"
    "submitter_email rt req = js_member userDetails ''email''"
    "request_bookingDetails rt req = Inr bookingDetails"
    "js_member (body req) ''description'' = Inr d"
    "bestDaysDisplay bookingDetails = Inr bestDays"
    "cleaning_bookingRows bookingDetails cleaningType currentCleaner bestDays = Inr bookingRows"
    "cleaning_adminContent userDetails bookingRows (js_or d (JStr '''')) = Inr adminContent"
    "cleaning_userContent userDetails bookingRows = Inr userContent"
  using assms
  by (auto simp: cleaning_contents_def submitter_email_def request_bookingDetails_def bindE_def
      split: sum.splits)

lemma gardening_contents_Inr:
  assumes "gardening_contents rt req = Inr (userDetails, atts, adminContent, userContent)"
  obtains bookingDetails d bookingRows where
    "atts = emailAttachments req"
    "submitter_email rt req = js_member userDetails ''email''"
    "request_bookingDetails rt req = Inr bookingDetails"
    "js_member (body req) ''description'' = Inr d"
    "gardening_bookingRows bookingDetails = Inr bookingRows"
    "gardening_adminContent userDetails bookingRows (js_or d (JStr '''')) = Inr adminContent"
    "gardening_userContent userDetails bookingRows = Inr userContent"
  using assms
  by (auto simp: gardening_contents_def submitter_email_def request_bookingDetails_def bindE_def
      split: sum.splits)

lemma cleaning_bookingRows_bestDays:
  assumes "cleaning_bookingRows bd ct cc bdays = Inr rows"
  shows "\<exists>t. ToString bdays = Inr t \<and>
          sublist (''      <tr><td>Preferred Days</td><td>'' @ t @ ''</td></tr>\<newline>'') rows"
  using template_hole[OF assms[unfolded cleaning_bookingRows_def], of 19]
  by (simp add: bindE_def)

lemma cleaning_adminContent_rows:
  assumes "cleaning_adminContent ud rows d = Inr ac"
  shows "sublist rows ac"
  by (rule template_hole_string[OF assms[unfolded cleaning_adminContent_def], of 15]) simp

lemma cleaning_userContent_rows:
  assumes "cleaning_userContent ud rows = Inr uc"
  shows "sublist rows uc"
  by (rule template_hole_string[OF assms[unfolded cleaning_userContent_def], of 10]) simp

lemma cleaning_adminContent_notes:
  assumes "cleaning_adminContent ud rows d = Inr ac" and "\<not> truthy d"
  shows \<open>sublist (''      <div class="section-title">Customer Notes</div>\<newline>'' @
            ''      <div class="description-box">'' @ ''No additional notes provided.'' @
            ''</div>\<newline>'') ac\<close>
  using template_hole_after_line[OF assms(1)[unfolded cleaning_adminContent_def], of 18] assms(2)
  by (simp add: bindE_def js_or_def)

lemma gardening_adminContent_notes:
  assumes "gardening_adminContent ud rows d = Inr ac" and "\<not> truthy d"
  shows \<open>sublist (''      <div class="section-title">Customer Notes</div>\<newline>'' @
            ''      <div class="description-box">'' @ ''No additional notes provided.'' @
            ''</div>\<newline>'') ac\<close>
  using template_hole_after_line[OF assms(1)[unfolded gardening_adminContent_def], of 18] assms(2)
  by (simp add: bindE_def js_or_def)

lemma sublist_trans: "sublist xs ys \<Longrightarrow> sublist ys zs \<Longrightarrow> sublist xs zs"
  unfolding sublist_def by (metis append.assoc)

lemma new_calls_append: "transport_calls w' = transport_calls w @ ms \<Longrightarrow> new_calls w w' = ms"
  by (simp add: new_calls_def)

lemma accepted_first:
  "accepted rt (transport_calls w @ m # ms) (length (transport_calls w)) =
     (sendMail rt (transport_calls w) m = None)"
  by (simp add: accepted_def)

lemma accepted_second:
  "accepted rt (transport_calls w @ [m1, m2]) (Suc (length (transport_calls w))) =
     (sendMail rt (transport_calls w @ [m1]) m2 = None)"
  by (simp add: accepted_def nth_append)

lemma booking_handler_shape:
  assumes "handler = book_cleaning \<or> handler = book_gardening"
    and "handler rt req w = (out, w')"
  obtains c subj title where
    "c = cleaning_contents rt req \<or> c = gardening_contents rt req"
    "booking_catch (bindIO (liftE c) (booking_sends rt subj title) w) = (out, w')"
  using assms(1)
proof
  assume "handler = book_cleaning"
  then have "booking_catch (bindIO (liftE (cleaning_contents rt req))
      (booking_sends rt ''New Cleaning Job Alert'' ''New Cleaning Job'') w) = (out, w')"
    using assms(2) by (simp add: book_cleaning_def)
  then show ?thesis using that by blast
next
  assume "handler = book_gardening"
  then have "booking_catch (bindIO (liftE (gardening_contents rt req))
      (booking_sends rt ''New Gardening Job Alert'' ''New Gardening Job'') w) = (out, w')"
    using assms(2) by (simp add: book_gardening_def)
  then show ?thesis using that by blast
qed

section \<open>Requests whose contents the booking handlers can build\<close>

lemma sequenceE_all_Inr:
  "(\<And>m. m \<in> set ms \<Longrightarrow> \<exists>a. m = Inr a) \<Longrightarrow> \<exists>as. sequenceE ms = Inr as"
  by (induction ms) (auto split: sum.splits)

lemma stringifiable_ToString: "stringifiable v \<Longrightarrow> \<exists>s. ToString v = Inr s"
proof (induction v rule: ToString.induct)
  case (6 xs)
  have "\<exists>ss. sequenceE (map (\<lambda>x. if x = JUndefined \<or> x = JNull then Inr '''' else ToString x) xs) = Inr ss"
    using 6 by (intro sequenceE_all_Inr) (auto simp: list_all_iff)
  then show ?case by (auto simp: bindE_def)
qed auto

lemma stringifiable_own_property:
  "stringifiable (JObj kvs) \<Longrightarrow> stringifiable (own_property kvs k)"
  by (auto simp: own_property_def list_all_iff split: option.splits dest!: map_of_SomeD)

lemma stringifiable_js_member:
  "stringifiable v \<Longrightarrow> js_member v k = Inr y \<Longrightarrow> stringifiable y"
  by (cases v) (auto simp: stringifiable_own_property simp del: stringifiable.simps(2))

lemma js_member_defined:
  "v \<noteq> JUndefined \<Longrightarrow> v \<noteq> JNull \<Longrightarrow> \<exists>y. js_member v k = Inr y"
  by (cases v) auto

lemma stringifiable_join_element: "stringifiable v \<Longrightarrow> \<exists>s. join_element v = Inr s"
  using stringifiable_ToString by (auto simp: join_element_def)

lemma stringifiable_Array_join:
  "list_all stringifiable ys \<Longrightarrow> \<exists>s. Array_join ys sep = Inr s"
proof -
  assume "list_all stringifiable ys"
  then have "\<exists>ss. sequenceE (map join_element ys) = Inr ss"
    by (intro sequenceE_all_Inr) (auto simp: list_all_iff dest: stringifiable_join_element)
  then show ?thesis by (auto simp: Array_join_def bindE_def)
qed

lemma stringifiable_formatValue:
  "stringifiable v \<Longrightarrow> \<exists>y. formatValue v = Inr y \<and> stringifiable y"
proof (induction v rule: formatValue.induct)
  case (5 xs)
  show ?case
  proof (cases "xs = []")
    case True
    then show ?thesis by simp
  next
    case False
    have each: "\<And>x. x \<in> set xs \<Longrightarrow> \<exists>y. formatValue x = Inr y \<and> stringifiable y"
      using 5 False by (auto simp: list_all_iff)
    then have "\<exists>ys. sequenceE (map formatValue xs) = Inr ys"
      by (intro sequenceE_all_Inr) auto
    then obtain ys where ys: "sequenceE (map formatValue xs) = Inr ys" by blast
    then have m: "map formatValue xs = map Inr ys" by (rule sequenceE_Inr)
    have "list_all stringifiable ys"
      unfolding list_all_iff
    proof
      fix y assume "y \<in> set ys"
      then have "Inr y \<in> set (map formatValue xs)" using m by simp
      then obtain x where "x \<in> set xs" "formatValue x = Inr y" by auto
      then show "stringifiable y" using each by fastforce
    qed
    then obtain s where "Array_join ys '', '' = Inr s"
      using stringifiable_Array_join by blast
    then show ?thesis using ys False by (simp add: bindE_def)
  qed
next
  case (6 kvs)
  have p: "\<And>k. stringifiable (own_property kvs k)"
    using 6 by (rule stringifiable_own_property)
  show ?case
    using p by (auto simp: typeof_string split: list.splits simp del: stringifiable.simps(2))
qed (auto simp: bindE_def)

lemma template_total:
  "(\<And>p. p \<in> set ps \<Longrightarrow> \<exists>s. piece_string p = Inr s) \<Longrightarrow> \<exists>s. template ps = Inr s"
proof -
  assume "\<And>p. p \<in> set ps \<Longrightarrow> \<exists>s. piece_string p = Inr s"
  then have "\<exists>ss. sequenceE (map piece_string ps) = Inr ss"
    by (intro sequenceE_all_Inr) auto
  then show ?thesis by (auto simp: template_def bindE_def)
qed

lemma piece_value:
  "stringifiable v \<Longrightarrow> \<exists>s. piece_string (Val (Inr v)) = Inr s"
  using stringifiable_ToString by (simp add: bindE_def)

lemma piece_member:
  assumes "stringifiable v" "v \<noteq> JUndefined" "v \<noteq> JNull"
  shows "\<exists>s. piece_string (Val (js_member v k)) = Inr s"
proof -
  obtain y where y: "js_member v k = Inr y" using assms js_member_defined by blast
  then have "stringifiable y" using assms(1) stringifiable_js_member by blast
  then show ?thesis using y stringifiable_ToString by (simp add: bindE_def)
qed

lemma piece_formatted_member:
  assumes "stringifiable v" "v \<noteq> JUndefined" "v \<noteq> JNull"
  shows "\<exists>s. piece_string (Val (bindE (js_member v k) formatValue)) = Inr s"
proof -
  obtain y where y: "js_member v k = Inr y" using assms js_member_defined by blast
  then have "stringifiable y" using assms(1) stringifiable_js_member by blast
  then obtain z where "formatValue y = Inr z" "stringifiable z"
    using stringifiable_formatValue by blast
  then show ?thesis using y stringifiable_ToString by (simp add: bindE_def)
qed

lemma append_suffix_total:
  assumes "stringifiable display" "stringifiable other"
  shows "\<exists>s. append_suffix display opening other = Inr (JStr s)"
proof -
  obtain a b where "ToString display = Inr a" "ToString other = Inr b"
    using assms stringifiable_ToString by blast
  then show ?thesis by (simp add: append_suffix_def template_def bindE_def)
qed

lemma truthy_defined: "truthy v \<Longrightarrow> v \<noteq> JUndefined \<and> v \<noteq> JNull"
  by (cases v) auto

lemma bestDaysDisplay_total:
  assumes "stringifiable bd" "bd \<noteq> JUndefined" "bd \<noteq> JNull"
  shows "\<exists>y. bestDaysDisplay bd = Inr y \<and> stringifiable y"
proof -
  obtain b where b: "js_member bd ''bestDays'' = Inr b" using assms js_member_defined by blast
  then have sb: "stringifiable b" using assms(1) stringifiable_js_member by blast
  show ?thesis
  proof (cases "truthy b")
    case False
    then show ?thesis using b by (simp add: bestDaysDisplay_def bindE_def)
  next
    case True
    show ?thesis
    proof (cases "Array_isArray b")
      case True
      then show ?thesis using b \<open>truthy b\<close> stringifiable_formatValue[OF sb]
        by (simp add: bestDaysDisplay_def bindE_def)
    next
      case False
      obtain n where n: "js_member b ''bestDays'' = Inr n"
        using truthy_defined[OF True] js_member_defined by blast
      then have sn: "stringifiable n" using sb stringifiable_js_member by blast
      obtain o' where o': "js_member b ''other'' = Inr o'"
        using truthy_defined[OF True] js_member_defined by blast
      then have so: "stringifiable o'" using sb stringifiable_js_member by blast
      obtain days where d: "formatValue n = Inr days" "stringifiable days"
        using stringifiable_formatValue[OF sn] by blast
      obtain s where "append_suffix days '' (Other: '' o' = Inr (JStr s)"
        using append_suffix_total[OF d(2) so] by blast
      then show ?thesis using b True False n o' d
        by (simp add: bestDaysDisplay_def bindE_def)
    qed
  qed
qed

lemma currentCleanerDisplay_total:
  assumes "stringifiable bd" "bd \<noteq> JUndefined" "bd \<noteq> JNull"
  shows "\<exists>y. currentCleanerDisplay bd = Inr y \<and> stringifiable y"
proof -
  obtain c where c: "js_member bd ''currentCleaner'' = Inr c"
    using assms js_member_defined by blast
  then have sc: "stringifiable c" using assms(1) stringifiable_js_member by blast
  show ?thesis
  proof (cases "truthy c")
    case False
    then show ?thesis using c by (simp add: currentCleanerDisplay_def bindE_def)
  next
    case True
    obtain i where i: "(if typeof c = ''object'' then js_member c ''currentCleaner''
                else Inr (JBool False)) = Inr i" "stringifiable i"
    proof (cases "typeof c = ''object''")
      case True
      obtain n where n: "js_member c ''currentCleaner'' = Inr n"
        using truthy_defined[OF \<open>truthy c\<close>] js_member_defined by blast
      then have "stringifiable n" using sc stringifiable_js_member by blast
      then show ?thesis using that True n by simp
    next
      case False
      then show ?thesis using that by simp
    qed
    obtain o' where o': "js_member c ''other'' = Inr o'"
      using truthy_defined[OF True] js_member_defined by blast
    then have so: "stringifiable o'" using sc stringifiable_js_member by blast
    obtain s where s: "append_suffix i '' ('' o' = Inr (JStr s)"
      using append_suffix_total[OF i(2) so] by blast
    obtain f where f: "formatValue c = Inr f" "stringifiable f"
      using stringifiable_formatValue[OF sc] by blast
    show ?thesis using c True i o' s f
      by (simp add: currentCleanerDisplay_def bindE_def)
  qed
qed

lemma cleaningTypeDisplay_total:
  assumes "stringifiable bd" "bd \<noteq> JUndefined" "bd \<noteq> JNull"
  shows "\<exists>y. cleaningTypeDisplay bd = Inr y \<and> stringifiable y"
proof -
  obtain c where c: "js_member bd ''cleaningType'' = Inr c"
    using assms js_member_defined by blast
  then have sc: "stringifiable c" using assms(1) stringifiable_js_member by blast
  obtain d where d: "formatValue c = Inr d" "stringifiable d"
    using stringifiable_formatValue[OF sc] by blast
  obtain o' where o': "js_member bd ''cleaningTypeOther'' = Inr o'"
    using assms js_member_defined by blast
  then have so: "stringifiable o'" using assms(1) stringifiable_js_member by blast
  obtain s where s: "append_suffix d '' ('' o' = Inr (JStr s)"
    using append_suffix_total[OF d(2) so] by blast
  show ?thesis using c d o' s by (simp add: cleaningTypeDisplay_def bindE_def)
qed

lemma cleaning_bookingRows_total:
  assumes "stringifiable bd" "bd \<noteq> JUndefined" "bd \<noteq> JNull"
    and "stringifiable ct" "stringifiable cc" "stringifiable bdays"
  shows "\<exists>rows. cleaning_bookingRows bd ct cc bdays = Inr rows"
  unfolding cleaning_bookingRows_def
  by (rule template_total)
    (use assms in \<open>auto intro: piece_value piece_formatted_member\<close>)

lemma gardening_bookingRows_total:
  assumes "stringifiable bd" "bd \<noteq> JUndefined" "bd \<noteq> JNull"
  shows "\<exists>rows. gardening_bookingRows bd = Inr rows"
  unfolding gardening_bookingRows_def
  by (rule template_total)
    (use assms in \<open>auto intro: piece_value piece_formatted_member\<close>)

lemma stringifiable_js_or: "stringifiable a \<Longrightarrow> stringifiable b \<Longrightarrow> stringifiable (js_or a b)"
  by (simp add: js_or_def)

lemma cleaning_adminContent_total:
  assumes "stringifiable ud" "ud \<noteq> JUndefined" "ud \<noteq> JNull" "stringifiable d"
  shows "\<exists>ac. cleaning_adminContent ud rows d = Inr ac"
proof -
  have desc: "\<exists>s. ToString (js_or d (JStr ''No additional notes provided.'')) = Inr s"
    using assms(4) stringifiable_ToString by (simp add: js_or_def)
  show ?thesis
    unfolding cleaning_adminContent_def
    by (rule template_total)
      (use assms desc in \<open>auto simp: bindE_def intro: piece_value piece_member\<close>)
qed

lemma cleaning_userContent_total:
  assumes "stringifiable ud" "ud \<noteq> JUndefined" "ud \<noteq> JNull"
  shows "\<exists>uc. cleaning_userContent ud rows = Inr uc"
  unfolding cleaning_userContent_def
  by (rule template_total)
    (use assms in \<open>auto intro: piece_value piece_member\<close>)

lemma gardening_adminContent_total:
  assumes "stringifiable ud" "ud \<noteq> JUndefined" "ud \<noteq> JNull" "stringifiable d"
  shows "\<exists>ac. gardening_adminContent ud rows d = Inr ac"
proof -
  have desc: "\<exists>s. ToString (js_or d (JStr ''No additional notes provided.'')) = Inr s"
    using assms(4) stringifiable_ToString by (simp add: js_or_def)
  show ?thesis
    unfolding gardening_adminContent_def
    by (rule template_total)
      (use assms desc in \<open>auto simp: bindE_def intro: piece_value piece_member\<close>)
qed

lemma gardening_userContent_total:
  assumes "stringifiable ud" "ud \<noteq> JUndefined" "ud \<noteq> JNull"
  shows "\<exists>uc. gardening_userContent ud rows = Inr uc"
  unfolding gardening_userContent_def
  by (rule template_total)
    (use assms in \<open>auto intro: piece_value piece_member\<close>)

lemma well_formed_bookingD:
  assumes "well_formed_booking rt req userDetails bookingDetails"
  obtains ut bt d where
    "js_member (body req) ''userDetails'' = Inr ut" "JSON_parse rt ut = Inr userDetails"
    "js_member (body req) ''bookingDetails'' = Inr bt" "JSON_parse rt bt = Inr bookingDetails"
    "js_member (body req) ''description'' = Inr d" "stringifiable (js_or d (JStr ''''))"
    "stringifiable userDetails" "userDetails \<noteq> JUndefined" "userDetails \<noteq> JNull"
    "stringifiable bookingDetails" "bookingDetails \<noteq> JUndefined" "bookingDetails \<noteq> JNull"
  using assms
  by (auto simp: well_formed_booking_def request_userDetails_def request_bookingDetails_def
      bindE_def js_or_def split: sum.splits)

lemma cleaning_contents_total:
  assumes "well_formed_booking rt req userDetails bookingDetails"
  shows "\<exists>adminContent userContent.
           cleaning_contents rt req = Inr (userDetails, emailAttachments req, adminContent, userContent)"
proof -
  from assms obtain ut bt d where
    f: "js_member (body req) ''userDetails'' = Inr ut" "JSON_parse rt ut = Inr userDetails"
    "js_member (body req) ''bookingDetails'' = Inr bt" "JSON_parse rt bt = Inr bookingDetails"
    "js_member (body req) ''description'' = Inr d" "stringifiable (js_or d (JStr ''''))"
    and ud: "stringifiable userDetails" "userDetails \<noteq> JUndefined" "userDetails \<noteq> JNull"
    and bd: "stringifiable bookingDetails" "bookingDetails \<noteq> JUndefined" "bookingDetails \<noteq> JNull"
    by (rule well_formed_bookingD)
  obtain bestDays where b: "bestDaysDisplay bookingDetails = Inr bestDays" "stringifiable bestDays"
    using bestDaysDisplay_total[OF bd] by blast
  obtain currentCleaner where c:
    "currentCleanerDisplay bookingDetails = Inr currentCleaner" "stringifiable currentCleaner"
    using currentCleanerDisplay_total[OF bd] by blast
  obtain cleaningType where t:
    "cleaningTypeDisplay bookingDetails = Inr cleaningType" "stringifiable cleaningType"
    using cleaningTypeDisplay_total[OF bd] by blast
  obtain rows where r:
    "cleaning_bookingRows bookingDetails cleaningType currentCleaner bestDays = Inr rows"
    using cleaning_bookingRows_total[OF bd t(2) c(2) b(2)] by blast
  obtain ac where ac: "cleaning_adminContent userDetails rows (js_or d (JStr '''')) = Inr ac"
    using cleaning_adminContent_total[OF ud f(6)] by blast
  obtain uc where uc: "cleaning_userContent userDetails rows = Inr uc"
    using cleaning_userContent_total[OF ud] by blast
  show ?thesis
    using f b c t r ac uc by (simp add: cleaning_contents_def bindE_def)
qed

lemma gardening_contents_total:
  assumes "well_formed_booking rt req userDetails bookingDetails"
  shows "\<exists>adminContent userContent.
           gardening_contents rt req = Inr (userDetails, emailAttachments req, adminContent, userContent)"
proof -
  from assms obtain ut bt d where
    f: "js_member (body req) ''userDetails'' = Inr ut" "JSON_parse rt ut = Inr userDetails"
    "js_member (body req) ''bookingDetails'' = Inr bt" "JSON_parse rt bt = Inr bookingDetails"
    "js_member (body req) ''description'' = Inr d" "stringifiable (js_or d (JStr ''''))"
    and ud: "stringifiable userDetails" "userDetails \<noteq> JUndefined" "userDetails \<noteq> JNull"
    and bd: "stringifiable bookingDetails" "bookingDetails \<noteq> JUndefined" "bookingDetails \<noteq> JNull"
    by (rule well_formed_bookingD)
  obtain rows where r: "gardening_bookingRows bookingDetails = Inr rows"
    using gardening_bookingRows_total[OF bd] by blast
  obtain ac where ac: "gardening_adminContent userDetails rows (js_or d (JStr '''')) = Inr ac"
    using gardening_adminContent_total[OF ud f(6)] by blast
  obtain uc where uc: "gardening_userContent userDetails rows = Inr uc"
    using gardening_userContent_total[OF ud] by blast
  show ?thesis
    using f r ac uc by (simp add: gardening_contents_def bindE_def)
qed

text \<open>
  A booking handler on a well-formed request: the admin send is made, and the customer
  send follows when the transport accepts the admin send.
\<close>

lemma booking_run:
  assumes "handler = book_cleaning \<or> handler = book_gardening"
    and "well_formed_booking rt req userDetails bookingDetails"
    and "handler rt req w = (out, w')"
  obtains
    (admin_only) subj title adminContent where
      "transport_calls w' = transport_calls w @
         [mail_options rt (env_value (ADMIN_EMAIL rt)) subj
            (generateEmailTemplate rt title adminContent) (Some (emailAttachments req))]"
      "sendMail rt (transport_calls w)
         (mail_options rt (env_value (ADMIN_EMAIL rt)) subj
            (generateEmailTemplate rt title adminContent) (Some (emailAttachments req))) \<noteq> None"
      "out = Failure500"
  | (both) subj title adminContent userContent email where
      "js_member userDetails ''email'' = Inr email"
      "transport_calls w' = transport_calls w @
         [mail_options rt (env_value (ADMIN_EMAIL rt)) subj
            (generateEmailTemplate rt title adminContent) (Some (emailAttachments req)),
          mail_options rt email ''Booking Received - Loksar Services''
            (generateEmailTemplate rt ''Booking Received'' userContent) None]"
      "sendMail rt (transport_calls w)
         (mail_options rt (env_value (ADMIN_EMAIL rt)) subj
            (generateEmailTemplate rt title adminContent) (Some (emailAttachments req))) = None"
proof -
  from assms(1,3) obtain c subj title
    where c: "c = cleaning_contents rt req \<or> c = gardening_contents rt req"
    and shape: "booking_catch (bindIO (liftE c) (booking_sends rt subj title) w) = (out, w')"
    by (rule booking_handler_shape)
  obtain ac uc where contents: "c = Inr (userDetails, emailAttachments req, ac, uc)"
    using c cleaning_contents_total[OF assms(2)] gardening_contents_total[OF assms(2)] by auto
  obtain e where email: "js_member userDetails ''email'' = Inr e"
    using well_formed_bookingD[OF assms(2)] js_member_defined by metis
  from shape show ?thesis
  proof (cases rule: booking_cases)
    case (none e)
    then show ?thesis using contents by simp
  next
    case (one userDetails' atts adminContent userContent)
    then show ?thesis using contents email admin_only[of subj title adminContent] by auto
  next
    case (two userDetails' atts adminContent userContent email')
    then show ?thesis using contents both[of email' subj title adminContent userContent] by auto
  qed
qed

section \<open>The example runs\<close>

lemma example_contact_contents:
  assumes "body req = JObj [(''name'', JStr ''Ann''), (''email'', JStr ''ann@x.com''),
                   (''phone'', JStr ''123''), (''subject'', JStr ''Leak''),
                   (''message'', JStr ''Help'')]"
  shows "\<exists>adminContent userContent.
           contact_contents req = Inr (JStr ''ann@x.com'', JStr ''Leak'', adminContent, userContent)"
  by (simp add: assms contact_contents_def contact_adminContent_def contact_userContent_def
      template_def bindE_def own_property_def)

lemma example_cleaning_contents:
  "\<exists>adminContent userContent.
     cleaning_contents (example_runtime transport) booking_request =
       Inr (JObj [(''name'', JStr ''Ann''), (''email'', JStr ''ann@x.com''), (''phone'', JStr ''123'')],
            [\<lparr>filename = ''leak.jpg'', content = [255, 216]\<rparr>], adminContent, userContent)"
  by (simp add: cleaning_contents_def JSON_parse_def example_runtime_def example_parse_def
      example_userDetails_def example_cleaningDetails_def
      booking_request_def emailAttachments_def bindE_def own_property_def js_or_def
      bestDaysDisplay_def currentCleanerDisplay_def cleaningTypeDisplay_def Array_isArray_def
      append_suffix_def Array_join_def join_element_def template_def
      cleaning_bookingRows_def cleaning_adminContent_def cleaning_userContent_def)

lemma example_cleaning_accepted:
  "\<exists>adminContent userContent.
     cleaning_contents (example_runtime accepting) booking_request =
       Inr (JObj [(''name'', JStr ''Ann''), (''email'', JStr ''ann@x.com''), (''phone'', JStr ''123'')],
            [\<lparr>filename = ''leak.jpg'', content = [255, 216]\<rparr>], adminContent, userContent) \<and>
     book_cleaning (example_runtime accepting) booking_request empty_world =
       (Success200,
        \<lparr>transport_calls =
           [mail_options (example_runtime accepting) (JStr ''admin@loksar.com'')
              ''New Cleaning Job Alert''
              (generateEmailTemplate (example_runtime accepting) ''New Cleaning Job'' adminContent)
              (Some [\<lparr>filename = ''leak.jpg'', content = [255, 216]\<rparr>]),
            mail_options (example_runtime accepting) (JStr ''ann@x.com'')
              ''Booking Received - Loksar Services''
              (generateEmailTemplate (example_runtime accepting) ''Booking Received'' userContent)
              None],
         console = [ConsoleLog ''Email sent to admin@loksar.com'',
                    ConsoleLog ''Email sent to ann@x.com'']\<rparr>)"
proof -
  obtain adminContent userContent where
    c: "cleaning_contents (example_runtime accepting) booking_request =
       Inr (JObj [(''name'', JStr ''Ann''), (''email'', JStr ''ann@x.com''), (''phone'', JStr ''123'')],
            [\<lparr>filename = ''leak.jpg'', content = [255, 216]\<rparr>], adminContent, userContent)"
    using example_cleaning_contents by blast
  have "book_cleaning (example_runtime accepting) booking_request empty_world =
       (Success200,
        \<lparr>transport_calls =
           [mail_options (example_runtime accepting) (JStr ''admin@loksar.com'')
              ''New Cleaning Job Alert''
              (generateEmailTemplate (example_runtime accepting) ''New Cleaning Job'' adminContent)
              (Some [\<lparr>filename = ''leak.jpg'', content = [255, 216]\<rparr>]),
            mail_options (example_runtime accepting) (JStr ''ann@x.com'')
              ''Booking Received - Loksar Services''
              (generateEmailTemplate (example_runtime accepting) ''Booking Received'' userContent)
              None],
         console = [ConsoleLog ''Email sent to admin@loksar.com'',
                    ConsoleLog ''Email sent to ann@x.com'']\<rparr>)"
    unfolding book_cleaning_def c
    by (simp add: bindIO_liftE_Inr booking_sends_def bindIO_def liftE_def sendEmail_def Let_def
        booking_catch_def empty_world_def own_property_def env_value_def
        example_runtime_def accepting_def)
  with c show ?thesis by blast
qed

lemma example_cleaning_rejected:
  "\<exists>m. book_cleaning (example_runtime rejecting) booking_request empty_world =
       (Failure500,
        \<lparr>transport_calls = [m],
         console = [ConsoleError ''Error sending email:'' (TransportError ''ECONNREFUSED''),
                    ConsoleError '''' (TransportError ''ECONNREFUSED'')]\<rparr>)"
proof -
  obtain adminContent userContent where
    c: "cleaning_contents (example_runtime rejecting) booking_request =
       Inr (JObj [(''name'', JStr ''Ann''), (''email'', JStr ''ann@x.com''), (''phone'', JStr ''123'')],
            [\<lparr>filename = ''leak.jpg'', content = [255, 216]\<rparr>], adminContent, userContent)"
    using example_cleaning_contents by blast
  show ?thesis
    unfolding book_cleaning_def c
    by (simp add: bindIO_liftE_Inr booking_sends_def bindIO_def liftE_def sendEmail_def Let_def
        booking_catch_def empty_world_def own_property_def env_value_def
        example_runtime_def rejecting_def)
qed

lemma map_two: "length xs = 2 \<Longrightarrow> map f xs = [f (xs ! 0), f (xs ! 1)]"
  by (cases xs; cases "tl xs") auto

lemma transport_calls_empty_world: "transport_calls empty_world = []"
  by (simp add: empty_world_def)

lemma example_cleaning_well_formed:
  "well_formed_booking (example_runtime transport) booking_request
     example_userDetails example_cleaningDetails"
  by (simp add: well_formed_booking_def request_userDetails_def request_bookingDetails_def
      JSON_parse_def bindE_def booking_request_def own_property_def example_runtime_def
      example_parse_def example_userDetails_def example_cleaningDetails_def)

lemma example_gardening_well_formed:
  "well_formed_booking (example_runtime transport) gardening_request
     example_userDetails example_gardeningDetails"
  by (simp add: well_formed_booking_def request_userDetails_def request_bookingDetails_def
      JSON_parse_def bindE_def gardening_request_def own_property_def example_runtime_def
      example_parse_def example_userDetails_def example_gardeningDetails_def)

lemma accepting_accepted: "accepted (example_runtime accepting) calls k"
  by (simp add: accepted_def example_runtime_def accepting_def)

lemma example_admin_address:
  "env_value (ADMIN_EMAIL (example_runtime transport)) = JStr ''admin@loksar.com''"
  by (simp add: example_runtime_def env_value_def)

lemma example_customer_address:
  "js_member example_userDetails ''email'' = Inr (JStr ''ann@x.com'')"
  by (simp add: example_userDetails_def own_property_def)

section \<open>Properties of the handlers\<close>

text \<open>
  C5. In the cleaning handler, a \<open>bestDays\<close> field
  \<open>{bestDays: ["Mon","Wed"], other: "evenings"}\<close> is displayed as
  \<open>Mon, Wed (Other: evenings)\<close>. In general a \<open>bestDays\<close> that is an array is formatted as
  it is; a \<open>bestDays\<close> object with a nested \<open>bestDays\<close> array has that array formatted,
  followed by \<open> (Other: <text>)\<close> when its \<open>other\<close> field is truthy and by nothing when it
  is not. The displayed value stands in the Preferred Days row of both the admin and the
  customer content.
\<close>

theorem best_days_display:
  "(js_member bookingDetails ''bestDays'' =
      Inr (JObj [(''bestDays'', JArr [JStr ''Mon'', JStr ''Wed'']), (''other'', JStr ''evenings'')]) \<longrightarrow>
      bestDaysDisplay bookingDetails = Inr (JStr ''Mon, Wed (Other: evenings)'')) \<and>
   (js_member bookingDetails ''bestDays'' = Inr (JArr xs) \<longrightarrow>
      bestDaysDisplay bookingDetails = formatValue (JArr xs)) \<and>
   (js_member bookingDetails ''bestDays'' = Inr (JObj kvs) \<and>
    own_property kvs ''bestDays'' = JArr ds \<and> formatValue (JArr ds) = Inr (JStr days) \<longrightarrow>
      (truthy (own_property kvs ''other'') \<and> ToString (own_property kvs ''other'') = Inr extra \<longrightarrow>
         bestDaysDisplay bookingDetails = Inr (JStr (days @ '' (Other: '' @ extra @ '')''))) \<and>
      (\<not> truthy (own_property kvs ''other'') \<longrightarrow>
         bestDaysDisplay bookingDetails = Inr (JStr days))) \<and>
   (cleaning_contents rt req = Inr (userDetails, atts, adminContent, userContent) \<and>
    request_bookingDetails rt req = Inr bookingDetails \<and>
    bestDaysDisplay bookingDetails = Inr display \<and> ToString display = Inr shown \<longrightarrow>
      sublist (''      <tr><td>Preferred Days</td><td>'' @ shown @ ''</td></tr>\<newline>'') adminContent \<and>
      sublist (''      <tr><td>Preferred Days</td><td>'' @ shown @ ''</td></tr>\<newline>'') userContent)"
proof (intro conjI impI)
  assume "js_member bookingDetails ''bestDays'' =
      Inr (JObj [(''bestDays'', JArr [JStr ''Mon'', JStr ''Wed'']), (''other'', JStr ''evenings'')])"
  then show "bestDaysDisplay bookingDetails = Inr (JStr ''Mon, Wed (Other: evenings)'')"
    by (simp add: bestDaysDisplay_def bindE_def Array_isArray_def own_property_def
        Array_join_def join_element_def append_suffix_def template_def)
next
  assume "js_member bookingDetails ''bestDays'' = Inr (JArr xs)"
  then show "bestDaysDisplay bookingDetails = formatValue (JArr xs)"
    by (simp add: bestDaysDisplay_def bindE_def Array_isArray_def)
next
  assume a: "js_member bookingDetails ''bestDays'' = Inr (JObj kvs) \<and>
    own_property kvs ''bestDays'' = JArr ds \<and> formatValue (JArr ds) = Inr (JStr days)"
    and b: "truthy (own_property kvs ''other'') \<and> ToString (own_property kvs ''other'') = Inr extra"
  have "formatValue (JArr ds) = Inr (JStr days)" using a by simp
  then show "bestDaysDisplay bookingDetails = Inr (JStr (days @ '' (Other: '' @ extra @ '')''))"
    using a b
    by (simp add: bestDaysDisplay_def bindE_def Array_isArray_def append_suffix_def template_def
        del: formatValue.simps)
next
  assume a: "js_member bookingDetails ''bestDays'' = Inr (JObj kvs) \<and>
    own_property kvs ''bestDays'' = JArr ds \<and> formatValue (JArr ds) = Inr (JStr days)"
    and b: "\<not> truthy (own_property kvs ''other'')"
  have "formatValue (JArr ds) = Inr (JStr days)" using a by simp
  then show "bestDaysDisplay bookingDetails = Inr (JStr days)"
    using a b
    by (simp add: bestDaysDisplay_def bindE_def Array_isArray_def del: formatValue.simps)
next
  assume a: "cleaning_contents rt req = Inr (userDetails, atts, adminContent, userContent) \<and>
    request_bookingDetails rt req = Inr bookingDetails \<and>
    bestDaysDisplay bookingDetails = Inr display \<and> ToString display = Inr shown"
  then have c: "cleaning_contents rt req = Inr (userDetails, atts, adminContent, userContent)"
    by simp
  from c obtain bd d bestDays currentCleaner cleaningType bookingRows where
    f: "request_bookingDetails rt req = Inr bd" "bestDaysDisplay bd = Inr bestDays"
      "cleaning_bookingRows bd cleaningType currentCleaner bestDays = Inr bookingRows"
      "cleaning_adminContent userDetails bookingRows (js_or d (JStr '''')) = Inr adminContent"
      "cleaning_userContent userDetails bookingRows = Inr userContent"
    by (rule cleaning_contents_Inr)
  have "bd = bookingDetails" "bestDays = display" using a f(1,2) by auto
  then have row: "sublist (''      <tr><td>Preferred Days</td><td>'' @ shown @ ''</td></tr>\<newline>'')
      bookingRows"
    using cleaning_bookingRows_bestDays[OF f(3)] a by auto
  show "sublist (''      <tr><td>Preferred Days</td><td>'' @ shown @ ''</td></tr>\<newline>'') adminContent"
    using row cleaning_adminContent_rows[OF f(4)] by (rule sublist_trans)
  show "sublist (''      <tr><td>Preferred Days</td><td>'' @ shown @ ''</td></tr>\<newline>'') userContent"
    using row cleaning_userContent_rows[OF f(5)] by (rule sublist_trans)
qed

theorem best_days_display_witness:
  "bestDaysDisplay (JObj [(''bestDays'',
       JObj [(''bestDays'', JArr [JStr ''Mon'', JStr ''Wed'']), (''other'', JStr ''evenings'')])]) =
     Inr (JStr ''Mon, Wed (Other: evenings)'') \<and>
   bestDaysDisplay (JObj [(''bestDays'', JArr [JStr ''Mon'', JStr ''Wed''])]) =
     Inr (JStr ''Mon, Wed'') \<and>
   bestDaysDisplay (JObj [(''bestDays'', JObj [(''bestDays'', JArr [JStr ''Mon'', JStr ''Wed''])])]) =
     Inr (JStr ''Mon, Wed'') \<and>
   (\<exists>adminContent userContent.
      cleaning_contents (example_runtime accepting) booking_request =
        Inr (JObj [(''name'', JStr ''Ann''), (''email'', JStr ''ann@x.com''),
                   (''phone'', JStr ''123'')],
             [\<lparr>filename = ''leak.jpg'', content = [255, 216]\<rparr>], adminContent, userContent) \<and>
      sublist ''      <tr><td>Preferred Days</td><td>Mon, Wed (Other: evenings)</td></tr>\<newline>''
        adminContent \<and>
      sublist ''      <tr><td>Preferred Days</td><td>Mon, Wed (Other: evenings)</td></tr>\<newline>''
        userContent)"
proof -
  let ?nested = "JObj [(''bestDays'', JArr [JStr ''Mon'', JStr ''Wed'']), (''other'', JStr ''evenings'')]"
  let ?bd = "JObj [(''bestDays'', ?nested)]"
  have days: "formatValue (JArr [JStr ''Mon'', JStr ''Wed'']) = Inr (JStr ''Mon, Wed'')"
    by (simp add: bindE_def Array_join_def join_element_def)
  have first: "bestDaysDisplay ?bd = Inr (JStr ''Mon, Wed (Other: evenings)'')"
    using best_days_display[of ?bd]
    by (simp add: own_property_def)
  have second: "bestDaysDisplay (JObj [(''bestDays'', JArr [JStr ''Mon'', JStr ''Wed''])]) =
      Inr (JStr ''Mon, Wed'')"
    using best_days_display[of "JObj [(''bestDays'', JArr [JStr ''Mon'', JStr ''Wed''])]"
        "[JStr ''Mon'', JStr ''Wed'']"] days
    by (simp add: own_property_def del: formatValue.simps)
  have third: "bestDaysDisplay
      (JObj [(''bestDays'', JObj [(''bestDays'', JArr [JStr ''Mon'', JStr ''Wed''])])]) =
      Inr (JStr ''Mon, Wed'')"
    using best_days_display[of
        "JObj [(''bestDays'', JObj [(''bestDays'', JArr [JStr ''Mon'', JStr ''Wed''])])]" _
        "[(''bestDays'', JArr [JStr ''Mon'', JStr ''Wed''])]" "[JStr ''Mon'', JStr ''Wed'']"
        "''Mon, Wed''"] days
    by (simp add: own_property_def del: formatValue.simps)
  obtain ac uc where
    c: "cleaning_contents (example_runtime accepting) booking_request =
         Inr (JObj [(''name'', JStr ''Ann''), (''email'', JStr ''ann@x.com''),
                   (''phone'', JStr ''123'')],
             [\<lparr>filename = ''leak.jpg'', content = [255, 216]\<rparr>], ac, uc)"
    using example_cleaning_contents by blast
  have bd: "request_bookingDetails (example_runtime accepting) booking_request = Inr ?bd"
    by (simp add: request_bookingDetails_def JSON_parse_def booking_request_def bindE_def
        own_property_def example_runtime_def example_parse_def example_userDetails_def
        example_cleaningDetails_def)
  have "sublist (''      <tr><td>Preferred Days</td><td>'' @ ''Mon, Wed (Other: evenings)'' @
            ''</td></tr>\<newline>'') ac \<and>
        sublist (''      <tr><td>Preferred Days</td><td>'' @ ''Mon, Wed (Other: evenings)'' @
            ''</td></tr>\<newline>'') uc"
    using best_days_display[of ?bd _ _ _ _ _ "example_runtime accepting" booking_request
        _ _ ac uc "JStr ''Mon, Wed (Other: evenings)''" "''Mon, Wed (Other: evenings)''"]
      c bd first
    by simp
  then show ?thesis using first second third c by auto
qed

text \<open>
  C6. For the contact submission \<open>{name: "Ann", email: "ann@x.com", phone: "123",
  subject: "Leak", message: "Help"}\<close>, when the transport accepts every send the handler
  makes, the handler makes exactly two sends, the first to the configured administrator
  address with subject \<open>New Contact: Leak\<close>, the second to \<open>ann@x.com\<close> with subject
  \<open>We received your message - Loksar\<close>, neither with an attachment, and responds 200 with
  \<open>success: true\<close>.
\<close>

theorem contact_example:
  assumes "body req = JObj [(''name'', JStr ''Ann''), (''email'', JStr ''ann@x.com''),
                   (''phone'', JStr ''123''), (''subject'', JStr ''Leak''),
                   (''message'', JStr ''Help'')]"
    and "\<forall>k. length (transport_calls w) \<le> k \<and>
             k < length (transport_calls (snd (contact rt req w))) \<longrightarrow>
             accepted rt (transport_calls (snd (contact rt req w))) k"
  shows "fst (contact rt req w) = Success200 \<and>
    map mail_to (new_calls w (snd (contact rt req w))) =
      [env_value (ADMIN_EMAIL rt), JStr ''ann@x.com''] \<and>
    map mail_subject (new_calls w (snd (contact rt req w))) =
      [''New Contact: Leak'', ''We received your message - Loksar''] \<and>
    map mail_attachments (new_calls w (snd (contact rt req w))) = [[], []]"
proof -
  obtain ac uc where
    contents: "contact_contents req = Inr (JStr ''ann@x.com'', JStr ''Leak'', ac, uc)"
    using example_contact_contents[OF assms(1)] by blast
  obtain out w' where run: "contact rt req w = (out, w')"
    by (cases "contact rt req w")
  have all: "\<And>k. length (transport_calls w) \<le> k \<Longrightarrow> k < length (transport_calls w') \<Longrightarrow>
      accepted rt (transport_calls w') k"
    using assms(2) run by simp
  from run show ?thesis
  proof (cases rule: contact_cases)
    case (escaped e)
    then show ?thesis using contents by simp
  next
    case (none email subject adminContent userContent e)
    then show ?thesis using contents by auto
  next
    case (one email subject adminContent userContent s)
    then show ?thesis
      using all[of "length (transport_calls w)"] by (simp add: accepted_def)
  next
    case (two email subject adminContent userContent s)
    have "email = JStr ''ann@x.com''" "s = ''Leak''"
      using two(1,2) contents by auto
    moreover have "sendMail rt (transport_calls w @
           [mail_options rt (env_value (ADMIN_EMAIL rt)) (''New Contact: '' @ s)
              (generateEmailTemplate rt ''New Contact'' adminContent) None])
           (mail_options rt email ''We received your message - Loksar''
              (generateEmailTemplate rt ''Thank You'' userContent) None) = None"
      using all[of "Suc (length (transport_calls w))"] two(3)
      by (simp add: accepted_def nth_append)
    ultimately show ?thesis using two run
      by (simp add: new_calls_def mail_options_def)
  qed
qed

theorem contact_example_witness:
  "fst (contact (example_runtime accepting) contact_request empty_world) = Success200 \<and>
   map mail_to (new_calls empty_world
       (snd (contact (example_runtime accepting) contact_request empty_world))) =
     [JStr ''admin@loksar.com'', JStr ''ann@x.com''] \<and>
   map mail_subject (new_calls empty_world
       (snd (contact (example_runtime accepting) contact_request empty_world))) =
     [''New Contact: Leak'', ''We received your message - Loksar'']"
proof -
  have b: "body contact_request = JObj [(''name'', JStr ''Ann''), (''email'', JStr ''ann@x.com''),
                   (''phone'', JStr ''123''), (''subject'', JStr ''Leak''),
                   (''message'', JStr ''Help'')]"
    by (simp add: contact_request_def)
  have a: "\<forall>k. length (transport_calls empty_world) \<le> k \<and>
             k < length (transport_calls
                   (snd (contact (example_runtime accepting) contact_request empty_world))) \<longrightarrow>
             accepted (example_runtime accepting) (transport_calls
                   (snd (contact (example_runtime accepting) contact_request empty_world))) k"
    by (simp add: accepted_def example_runtime_def accepting_def)
  show ?thesis
    using contact_example[OF b a] by (simp add: example_runtime_def env_value_def)
qed

text \<open>
  C7. When the transport rejects a send, \<open>sendEmail\<close> makes that one call, logs the error
  and throws the same error to its caller. In every handler, when the transport rejects a
  send the handler makes (the admin send, at the position where the handler starts, or
  the customer send after it), the handler responds 500 with \<open>success: false\<close>: the
  error does not escape the handler.
\<close>

theorem transport_failure_gives_500:
  "(sendMail rt (transport_calls w) (mail_options rt to subject html atts) = Some e \<longrightarrow>
      sendEmail rt to subject html atts w =
        (Inl e, w\<lparr>transport_calls := transport_calls w @ [mail_options rt to subject html atts],
                  console := console w @ [ConsoleError ''Error sending email:'' e]\<rparr>)) \<and>
   (app_post path = Some handler \<and> length (transport_calls w) \<le> k \<and>
    k < length (transport_calls (snd (handler rt req w))) \<and>
    \<not> accepted rt (transport_calls (snd (handler rt req w))) k \<longrightarrow>
      fst (handler rt req w) = Failure500)"
proof (intro conjI impI)
  assume "sendMail rt (transport_calls w) (mail_options rt to subject html atts) = Some e"
  then show "sendEmail rt to subject html atts w =
        (Inl e, w\<lparr>transport_calls := transport_calls w @ [mail_options rt to subject html atts],
                  console := console w @ [ConsoleError ''Error sending email:'' e]\<rparr>)"
    by (simp add: sendEmail_def Let_def)
next
  assume a: "app_post path = Some handler \<and> length (transport_calls w) \<le> k \<and>
    k < length (transport_calls (snd (handler rt req w))) \<and>
    \<not> accepted rt (transport_calls (snd (handler rt req w))) k"
  obtain out w' where run: "handler rt req w = (out, w')"
    by (cases "handler rt req w")
  from a have route: "app_post path = Some handler" by simp
  from route run show "fst (handler rt req w) = Failure500"
  proof (cases rule: handler_cases)
    case none
    then show ?thesis using a run by auto
  next
    case (one m1)
    then show ?thesis using run by simp
  next
    case (two m1 m2)
    have "k = length (transport_calls w) \<or> k = Suc (length (transport_calls w))"
      using a run two(1) by auto
    then show ?thesis
      using a run two accepted_first[of rt w m1 "[m2]"] accepted_second[of rt w m1 m2]
      by auto
  qed
qed

theorem transport_failure_gives_500_witness:
  "sendEmail (example_runtime rejecting) (JStr ''admin@loksar.com'') ''New Cleaning Job Alert''
      ''<p>job</p>'' None empty_world =
     (Inl (TransportError ''ECONNREFUSED''),
      \<lparr>transport_calls =
         [mail_options (example_runtime rejecting) (JStr ''admin@loksar.com'')
            ''New Cleaning Job Alert'' ''<p>job</p>'' None],
       console = [ConsoleError ''Error sending email:'' (TransportError ''ECONNREFUSED'')]\<rparr>) \<and>
   app_post ''/api/book-cleaning'' = Some book_cleaning \<and>
   0 < length (transport_calls
         (snd (book_cleaning (example_runtime rejecting) booking_request empty_world))) \<and>
   \<not> accepted (example_runtime rejecting)
       (transport_calls
         (snd (book_cleaning (example_runtime rejecting) booking_request empty_world))) 0 \<and>
   fst (book_cleaning (example_runtime rejecting) booking_request empty_world) = Failure500"
proof -
  obtain m where run: "book_cleaning (example_runtime rejecting) booking_request empty_world =
       (Failure500,
        \<lparr>transport_calls = [m],
         console = [ConsoleError ''Error sending email:'' (TransportError ''ECONNREFUSED''),
                    ConsoleError '''' (TransportError ''ECONNREFUSED'')]\<rparr>)"
    using example_cleaning_rejected by blast
  have route: "app_post ''/api/book-cleaning'' = Some book_cleaning"
    by (simp add: app_post_def)
  have rejected: "sendMail (example_runtime rejecting) calls mail = Some (TransportError ''ECONNREFUSED'')"
    for calls mail
    by (simp add: example_runtime_def rejecting_def)
  show ?thesis
    using transport_failure_gives_500[where rt = "example_runtime rejecting" and w = empty_world
        and to = "JStr ''admin@loksar.com''" and subject = "''New Cleaning Job Alert''"
        and html = "''<p>job</p>''" and atts = None and e = "TransportError ''ECONNREFUSED''"
        and path = "''/api/book-cleaning''" and handler = book_cleaning and k = 0
        and req = booking_request]
      route run rejected
    by (simp add: accepted_def empty_world_def)
qed

text \<open>What the sends of a booking handler carry, for the sends it makes.\<close>

lemma attachments_when_sent:
  assumes "handler = book_cleaning \<or> handler = book_gardening"
    and "files req = Some fs"
  shows "length (new_calls w (snd (handler rt req w))) \<le> 2 \<and>
    (new_calls w (snd (handler rt req w)) \<noteq> [] \<longrightarrow>
       mail_to (new_calls w (snd (handler rt req w)) ! 0) = env_value (ADMIN_EMAIL rt) \<and>
       mail_attachments (new_calls w (snd (handler rt req w)) ! 0) =
         map (\<lambda>file. \<lparr>filename = originalname file, content = buffer file\<rparr>) fs) \<and>
    (length (new_calls w (snd (handler rt req w))) = 2 \<longrightarrow>
       Inr (mail_to (new_calls w (snd (handler rt req w)) ! 1)) = submitter_email rt req \<and>
       mail_attachments (new_calls w (snd (handler rt req w)) ! 1) = []) \<and>
    (fst (handler rt req w) = Success200 \<longrightarrow> length (new_calls w (snd (handler rt req w))) = 2)"
proof -
  obtain out w' where run: "handler rt req w = (out, w')"
    by (cases "handler rt req w")
  from assms(1) run obtain c subj title
    where c: "c = cleaning_contents rt req \<or> c = gardening_contents rt req"
    and shape: "booking_catch (bindIO (liftE c) (booking_sends rt subj title) w) = (out, w')"
    by (rule booking_handler_shape)
  have inv: "atts = emailAttachments req \<and> submitter_email rt req = js_member userDetails ''email''"
    if "c = Inr (userDetails, atts, adminContent, userContent)"
    for userDetails atts adminContent userContent
    using c that by (metis cleaning_contents_Inr gardening_contents_Inr)
  have atts: "emailAttachments req =
      map (\<lambda>file. \<lparr>filename = originalname file, content = buffer file\<rparr>) fs"
    using assms(2) by (simp add: emailAttachments_def)
  from shape show ?thesis
  proof (cases rule: booking_cases)
    case (none e)
    then show ?thesis using run by (simp add: new_calls_def)
  next
    case (one userDetails atts' adminContent userContent)
    then show ?thesis using run inv[OF one(1)] atts
      by (simp add: new_calls_def mail_options_def)
  next
    case (two userDetails atts' adminContent userContent email)
    then show ?thesis using run inv[OF two(1)] atts
      by (auto simp: new_calls_def mail_options_def)
  qed
qed

text \<open>
  C8. In a booking handler (cleaning or gardening) that received uploaded files, the
  handler makes at most two sends. The first goes to the administrator address and
  carries one attachment per file, its file name and its content; the second goes to the
  submitter's address (\<open>userDetails.email\<close>) and carries no attachment. A 200 response
  means both were made. On a request whose contents can be built the first send is made,
  with the attachments, and when the transport accepts it the second is made, without.
\<close>

theorem attachments_on_admin_copy_only:
  assumes "handler = book_cleaning \<or> handler = book_gardening"
    and "files req = Some fs"
  shows "length (new_calls w (snd (handler rt req w))) \<le> 2 \<and>
    (new_calls w (snd (handler rt req w)) \<noteq> [] \<longrightarrow>
       mail_to (new_calls w (snd (handler rt req w)) ! 0) = env_value (ADMIN_EMAIL rt) \<and>
       mail_attachments (new_calls w (snd (handler rt req w)) ! 0) =
         map (\<lambda>file. \<lparr>filename = originalname file, content = buffer file\<rparr>) fs) \<and>
    (length (new_calls w (snd (handler rt req w))) = 2 \<longrightarrow>
       Inr (mail_to (new_calls w (snd (handler rt req w)) ! 1)) = submitter_email rt req \<and>
       mail_attachments (new_calls w (snd (handler rt req w)) ! 1) = []) \<and>
    (fst (handler rt req w) = Success200 \<longrightarrow> length (new_calls w (snd (handler rt req w))) = 2) \<and>
    (well_formed_booking rt req userDetails bookingDetails \<longrightarrow>
       new_calls w (snd (handler rt req w)) \<noteq> [] \<and>
       mail_to (new_calls w (snd (handler rt req w)) ! 0) = env_value (ADMIN_EMAIL rt) \<and>
       mail_attachments (new_calls w (snd (handler rt req w)) ! 0) =
         map (\<lambda>file. \<lparr>filename = originalname file, content = buffer file\<rparr>) fs \<and>
       (accepted rt (transport_calls (snd (handler rt req w))) (length (transport_calls w)) \<longrightarrow>
          length (new_calls w (snd (handler rt req w))) = 2 \<and>
          Inr (mail_to (new_calls w (snd (handler rt req w)) ! 1)) =
            js_member userDetails ''email'' \<and>
          mail_attachments (new_calls w (snd (handler rt req w)) ! 1) = []))"
proof -
  note sent = attachments_when_sent[OF assms, of w rt]
  have "new_calls w (snd (handler rt req w)) \<noteq> [] \<and>
       (accepted rt (transport_calls (snd (handler rt req w))) (length (transport_calls w)) \<longrightarrow>
          length (new_calls w (snd (handler rt req w))) = 2 \<and>
          Inr (mail_to (new_calls w (snd (handler rt req w)) ! 1)) =
            js_member userDetails ''email'')"
    if wf: "well_formed_booking rt req userDetails bookingDetails"
  proof -
    obtain out w' where run: "handler rt req w = (out, w')"
      by (cases "handler rt req w")
    from assms(1) wf run show ?thesis
    proof (cases rule: booking_run)
      case (admin_only subj title adminContent)
      then show ?thesis using run by (simp add: new_calls_def accepted_def)
    next
      case (both subj title adminContent userContent email)
      then show ?thesis using run by (simp add: new_calls_def mail_options_def)
    qed
  qed
  then show ?thesis using sent by auto
qed

theorem attachments_on_admin_copy_only_witness:
  "files booking_request = Some [\<lparr>originalname = ''leak.jpg'', buffer = [255, 216]\<rparr>] \<and>
   well_formed_booking (example_runtime accepting) booking_request
     example_userDetails example_cleaningDetails \<and>
   map mail_attachments (new_calls empty_world
       (snd (book_cleaning (example_runtime accepting) booking_request empty_world))) =
     [[\<lparr>filename = ''leak.jpg'', content = [255, 216]\<rparr>], []] \<and>
   map mail_to (new_calls empty_world
       (snd (book_cleaning (example_runtime accepting) booking_request empty_world))) =
     [JStr ''admin@loksar.com'', JStr ''ann@x.com''] \<and>
   files gardening_request = Some [\<lparr>originalname = ''hedge.png'', buffer = [137, 80]\<rparr>] \<and>
   well_formed_booking (example_runtime accepting) gardening_request
     example_userDetails example_gardeningDetails \<and>
   map mail_attachments (new_calls empty_world
       (snd (book_gardening (example_runtime accepting) gardening_request empty_world))) =
     [[\<lparr>filename = ''hedge.png'', content = [137, 80]\<rparr>], []] \<and>
   map mail_to (new_calls empty_world
       (snd (book_gardening (example_runtime accepting) gardening_request empty_world))) =
     [JStr ''admin@loksar.com'', JStr ''ann@x.com'']"
proof -
  let ?rt = "example_runtime accepting"
  let ?c = "new_calls empty_world (snd (book_cleaning ?rt booking_request empty_world))"
  let ?g = "new_calls empty_world (snd (book_gardening ?rt gardening_request empty_world))"
  have hc: "book_cleaning = book_cleaning \<or> book_cleaning = book_gardening" by simp
  have hg: "book_gardening = book_cleaning \<or> book_gardening = book_gardening" by simp
  have fc: "files booking_request = Some [\<lparr>originalname = ''leak.jpg'', buffer = [255, 216]\<rparr>]"
    by (simp add: booking_request_def)
  have fg: "files gardening_request = Some [\<lparr>originalname = ''hedge.png'', buffer = [137, 80]\<rparr>]"
    by (simp add: gardening_request_def)
  note wc = example_cleaning_well_formed[of accepting]
  note wg = example_gardening_well_formed[of accepting]
  have c: "length ?c = 2"
    "mail_attachments (?c ! 0) = [\<lparr>filename = ''leak.jpg'', content = [255, 216]\<rparr>]"
    "mail_attachments (?c ! 1) = []"
    "mail_to (?c ! 0) = JStr ''admin@loksar.com''" "mail_to (?c ! 1) = JStr ''ann@x.com''"
    using attachments_on_admin_copy_only[OF hc fc, of empty_world ?rt example_userDetails example_cleaningDetails]
      wc accepting_accepted example_admin_address example_customer_address
    by simp_all
  have g: "length ?g = 2"
    "mail_attachments (?g ! 0) = [\<lparr>filename = ''hedge.png'', content = [137, 80]\<rparr>]"
    "mail_attachments (?g ! 1) = []"
    "mail_to (?g ! 0) = JStr ''admin@loksar.com''" "mail_to (?g ! 1) = JStr ''ann@x.com''"
    using attachments_on_admin_copy_only[OF hg fg, of empty_world ?rt example_userDetails example_gardeningDetails]
      wg accepting_accepted example_admin_address example_customer_address
    by simp_all
  have "map mail_attachments ?c = [mail_attachments (?c ! 0), mail_attachments (?c ! 1)]"
    "map mail_to ?c = [mail_to (?c ! 0), mail_to (?c ! 1)]"
    using c(1) by (rule map_two)+
  moreover have "map mail_attachments ?g = [mail_attachments (?g ! 0), mail_attachments (?g ! 1)]"
    "map mail_to ?g = [mail_to (?g ! 0), mail_to (?g ! 1)]"
    using g(1) by (rule map_two)+
  ultimately show ?thesis using fc fg wc wg c g by simp
qed

text \<open>
  C9. In every handler the sends of one submission are made one after the other: the
  transport calls of the run are appended to the earlier ones, at most two, the admin
  send first; when the transport rejects the admin send, it is the only send of the run
  (the customer send never occurs); and the handler responds 200 with \<open>success: true\<close>
  only when it made both sends and the transport accepted both.
\<close>

theorem sends_are_sequential:
  assumes "app_post path = Some handler"
  shows "transport_calls (snd (handler rt req w)) =
           transport_calls w @ new_calls w (snd (handler rt req w)) \<and>
    length (new_calls w (snd (handler rt req w))) \<le> 2 \<and>
    (new_calls w (snd (handler rt req w)) \<noteq> [] \<longrightarrow>
       mail_to (hd (new_calls w (snd (handler rt req w)))) = env_value (ADMIN_EMAIL rt)) \<and>
    (new_calls w (snd (handler rt req w)) \<noteq> [] \<and>
     \<not> accepted rt (transport_calls (snd (handler rt req w))) (length (transport_calls w)) \<longrightarrow>
       length (new_calls w (snd (handler rt req w))) = 1) \<and>
    (fst (handler rt req w) = Success200 \<longrightarrow>
       length (new_calls w (snd (handler rt req w))) = 2 \<and>
       accepted rt (transport_calls (snd (handler rt req w))) (length (transport_calls w)) \<and>
       accepted rt (transport_calls (snd (handler rt req w))) (Suc (length (transport_calls w))))"
proof -
  obtain out w' where run: "handler rt req w = (out, w')"
    by (cases "handler rt req w")
  from assms run show ?thesis
  proof (cases rule: handler_cases)
    case none
    then show ?thesis using run by (simp add: new_calls_def)
  next
    case (one m1)
    then show ?thesis using run by (simp add: new_calls_def)
  next
    case (two m1 m2)
    then show ?thesis
      using run accepted_first[of rt w m1 "[m2]"] accepted_second[of rt w m1 m2]
      by (auto simp: new_calls_def)
  qed
qed

theorem sends_are_sequential_witness:
  "app_post ''/api/book-cleaning'' = Some book_cleaning \<and>
   new_calls empty_world
     (snd (book_cleaning (example_runtime rejecting) booking_request empty_world)) \<noteq> [] \<and>
   \<not> accepted (example_runtime rejecting)
       (transport_calls
         (snd (book_cleaning (example_runtime rejecting) booking_request empty_world)))
       (length (transport_calls empty_world)) \<and>
   length (new_calls empty_world
     (snd (book_cleaning (example_runtime rejecting) booking_request empty_world))) = 1 \<and>
   fst (book_cleaning (example_runtime accepting) booking_request empty_world) = Success200 \<and>
   length (new_calls empty_world
     (snd (book_cleaning (example_runtime accepting) booking_request empty_world))) = 2"
proof -
  obtain m where rej: "book_cleaning (example_runtime rejecting) booking_request empty_world =
       (Failure500,
        \<lparr>transport_calls = [m],
         console = [ConsoleError ''Error sending email:'' (TransportError ''ECONNREFUSED''),
                    ConsoleError '''' (TransportError ''ECONNREFUSED'')]\<rparr>)"
    using example_cleaning_rejected by blast
  have ok: "fst (book_cleaning (example_runtime accepting) booking_request empty_world) = Success200"
    using example_cleaning_accepted by auto
  have route: "app_post ''/api/book-cleaning'' = Some book_cleaning"
    by (simp add: app_post_def)
  have nonempty: "new_calls empty_world
     (snd (book_cleaning (example_runtime rejecting) booking_request empty_world)) \<noteq> []"
    by (simp add: rej new_calls_def transport_calls_empty_world)
  have refused: "\<not> accepted (example_runtime rejecting)
       (transport_calls
         (snd (book_cleaning (example_runtime rejecting) booking_request empty_world)))
       (length (transport_calls empty_world))"
    by (simp add: accepted_def example_runtime_def rejecting_def)
  show ?thesis
    using sends_are_sequential[OF route, of "example_runtime rejecting" booking_request empty_world]
      sends_are_sequential[OF route, of "example_runtime accepting" booking_request empty_world]
      route nonempty refused ok
    by simp
qed

text \<open>The notes of the admin email of a booking, when the email is sent.\<close>

lemma placeholder_when_sent:
  assumes "handler = book_cleaning \<or> handler = book_gardening"
    and "js_member (body req) ''description'' = Inr d"
    and "d = JUndefined \<or> d = JStr ''''"
    and "new_calls w (snd (handler rt req w)) \<noteq> []"
  shows \<open>sublist (''      <div class="section-title">Customer Notes</div>\<newline>'' @
            ''      <div class="description-box">No additional notes provided.</div>\<newline>'')
          (mail_html (hd (new_calls w (snd (handler rt req w)))))\<close>
proof -
  let ?notes = \<open>''      <div class="section-title">Customer Notes</div>\<newline>'' @
            ''      <div class="description-box">'' @ ''No additional notes provided.'' @
            ''</div>\<newline>''\<close>
  obtain out w' where run: "handler rt req w = (out, w')"
    by (cases "handler rt req w")
  from assms(1) run obtain c subj title
    where c: "c = cleaning_contents rt req \<or> c = gardening_contents rt req"
    and shape: "booking_catch (bindIO (liftE c) (booking_sends rt subj title) w) = (out, w')"
    by (rule booking_handler_shape)
  have falsy: "\<not> truthy (js_or d (JStr ''''))"
    using assms(3) by (auto simp: js_or_def)
  have in_content: "sublist ?notes adminContent"
    if "c = Inr (userDetails, atts, adminContent, userContent)"
    for userDetails atts adminContent userContent
  proof -
    from c show ?thesis
    proof
      assume "c = cleaning_contents rt req"
      with that have "cleaning_contents rt req = Inr (userDetails, atts, adminContent, userContent)"
        by simp
      then obtain d' rows where "js_member (body req) ''description'' = Inr d'"
        "cleaning_adminContent userDetails rows (js_or d' (JStr '''')) = Inr adminContent"
        by (rule cleaning_contents_Inr)
      then show ?thesis using assms(2) falsy cleaning_adminContent_notes by auto
    next
      assume "c = gardening_contents rt req"
      with that have "gardening_contents rt req = Inr (userDetails, atts, adminContent, userContent)"
        by simp
      then obtain d' rows where "js_member (body req) ''description'' = Inr d'"
        "gardening_adminContent userDetails rows (js_or d' (JStr '''')) = Inr adminContent"
        by (rule gardening_contents_Inr)
      then show ?thesis using assms(2) falsy gardening_adminContent_notes by auto
    qed
  qed
  have html: "sublist ?notes (generateEmailTemplate rt title adminContent)"
    if "c = Inr (userDetails, atts, adminContent, userContent)"
    for userDetails atts adminContent userContent
    using in_content[OF that] sublist_generateEmailTemplate by (rule sublist_trans)
  have "sublist ?notes (mail_html (hd (new_calls w (snd (handler rt req w)))))"
    using shape
  proof (cases rule: booking_cases)
    case (none e)
    then show ?thesis using run assms(4) by (simp add: new_calls_def)
  next
    case (one userDetails atts adminContent userContent)
    then have "mail_html (hd (new_calls w (snd (handler rt req w)))) =
        generateEmailTemplate rt title adminContent"
      using run by (simp add: new_calls_def mail_options_def)
    then show ?thesis using html[OF one(1)] by simp
  next
    case (two userDetails atts adminContent userContent email)
    then have "mail_html (hd (new_calls w (snd (handler rt req w)))) =
        generateEmailTemplate rt title adminContent"
      using run by (simp add: new_calls_def mail_options_def)
    then show ?thesis using html[OF two(1)] by simp
  qed
  then show ?thesis by simp
qed

text \<open>
  C10. In both booking handlers, when the \<open>description\<close> field of the request is absent
  or the empty string, the admin email (the first send of the run) holds, under its
  Customer Notes title, the description box with the text
  \<open>No additional notes provided.\<close> On a request whose contents can be built that email
  is sent, to the administrator address.
\<close>

theorem empty_description_placeholder:
  assumes "handler = book_cleaning \<or> handler = book_gardening"
    and "js_member (body req) ''description'' = Inr d"
    and "d = JUndefined \<or> d = JStr ''''"
  shows \<open>(new_calls w (snd (handler rt req w)) \<noteq> [] \<longrightarrow>
            sublist (''      <div class="section-title">Customer Notes</div>\<newline>'' @
              ''      <div class="description-box">No additional notes provided.</div>\<newline>'')
            (mail_html (hd (new_calls w (snd (handler rt req w)))))) \<and>
         (well_formed_booking rt req userDetails bookingDetails \<longrightarrow>
            new_calls w (snd (handler rt req w)) \<noteq> [] \<and>
            mail_to (hd (new_calls w (snd (handler rt req w)))) = env_value (ADMIN_EMAIL rt) \<and>
            sublist (''      <div class="section-title">Customer Notes</div>\<newline>'' @
              ''      <div class="description-box">No additional notes provided.</div>\<newline>'')
            (mail_html (hd (new_calls w (snd (handler rt req w))))))\<close>
proof -
  have sent: "new_calls w (snd (handler rt req w)) \<noteq> [] \<and>
      mail_to (hd (new_calls w (snd (handler rt req w)))) = env_value (ADMIN_EMAIL rt)"
    if wf: "well_formed_booking rt req userDetails bookingDetails"
  proof -
    obtain out w' where run: "handler rt req w = (out, w')"
      by (cases "handler rt req w")
    from assms(1) wf run show ?thesis
    proof (cases rule: booking_run)
      case (admin_only subj title adminContent)
      then show ?thesis using run by (simp add: new_calls_def mail_options_def)
    next
      case (both subj title adminContent userContent email)
      then show ?thesis using run by (simp add: new_calls_def mail_options_def)
    qed
  qed
  show ?thesis
    using sent placeholder_when_sent[OF assms, of w rt] by blast
qed

theorem empty_description_placeholder_witness:
  \<open>js_member (body booking_request) ''description'' = Inr JUndefined \<and>
   well_formed_booking (example_runtime accepting) booking_request
     example_userDetails example_cleaningDetails \<and>
   sublist (''      <div class="section-title">Customer Notes</div>\<newline>'' @
            ''      <div class="description-box">No additional notes provided.</div>\<newline>'')
     (mail_html (hd (new_calls empty_world
        (snd (book_cleaning (example_runtime accepting) booking_request empty_world))))) \<and>
   js_member (body gardening_request) ''description'' = Inr (JStr '''') \<and>
   well_formed_booking (example_runtime rejecting) gardening_request
     example_userDetails example_gardeningDetails \<and>
   sublist (''      <div class="section-title">Customer Notes</div>\<newline>'' @
            ''      <div class="description-box">No additional notes provided.</div>\<newline>'')
     (mail_html (hd (new_calls empty_world
        (snd (book_gardening (example_runtime rejecting) gardening_request empty_world)))))\<close>
proof -
  have hc: "book_cleaning = book_cleaning \<or> book_cleaning = book_gardening" by simp
  have hg: "book_gardening = book_cleaning \<or> book_gardening = book_gardening" by simp
  have dc: "js_member (body booking_request) ''description'' = Inr JUndefined"
    by (simp add: booking_request_def own_property_def)
  have dg: "js_member (body gardening_request) ''description'' = Inr (JStr '''')"
    by (simp add: gardening_request_def own_property_def)
  have uc: "JUndefined = JUndefined \<or> JUndefined = JStr ''''" by simp
  have ug: "JStr '''' = JUndefined \<or> JStr '''' = JStr ''''" by simp
  note wc = example_cleaning_well_formed[of accepting]
  note wg = example_gardening_well_formed[of rejecting]
  show ?thesis
    using empty_description_placeholder[OF hc dc uc, of empty_world "example_runtime accepting"
        example_userDetails example_cleaningDetails]
      empty_description_placeholder[OF hg dg ug, of empty_world "example_runtime rejecting"
        example_userDetails example_gardeningDetails]
      dc dg wc wg
    by blast
qed

end
